theory Spec2Isabelle
  imports Main "HOL-Library.Word" "HOL-Library.Sublist"
begin

section \<open>Strings, bytes and the platform\<close>

text \<open>
  The capture tool is a set of event handlers around a browser page. The model follows
  the variant with DOM snapshots and the asset map; the earlier variant \<open>parser.js\<close>
  has the same \<open>getExtension\<close>, the same handlers and the same \<open>saveFile\<close> without
  the asset-map update, and no sampler. Host-side strings that the code inspects (URLs,
  header values, resource types, file paths, hex digests) are \<open>string\<close>; strings of the
  page (DOM text, the serialized snapshot) are sequences of UTF-16 code units, because
  \<open>simpleHash\<close> reads them with \<open>charCodeAt\<close>. File contents are byte sequences.
\<close>

type_synonym jsstring = "16 word list"
type_synonym bytes = "8 word list"

definition js :: "string \<Rightarrow> jsstring" where
  "js s = map (\<lambda>c. of_nat (of_char c)) s"

text \<open>\<open>String.prototype.includes\<close>: the argument occurs as a contiguous substring.\<close>

definition includes_str :: "string \<Rightarrow> string \<Rightarrow> bool" where
  "includes_str s sub = sublist sub s"

text \<open>
  The snapshot node built by \<open>traverse\<close>: the object literal with the fields
  \<open>tagName, id, className, textContent, attributes, styles, children\<close>.
\<close>

datatype snapshot = Node
  (s_tagName: jsstring) (s_id: jsstring) (s_className: jsstring)
  (s_textContent: "jsstring option")
  (s_attributes: "(jsstring \<times> jsstring) list")
  (s_styles: "(string \<times> jsstring) list")
  (s_children: "snapshot list")

text \<open>
  Library functions the code calls and does not define are parameters of the model:
  \<open>crypto.createHash('md5').update(b).digest('hex')\<close>, the UTF-8 encoding applied when a
  string is hashed or written, \<open>new URL(u).pathname\<close> (\<open>None\<close> when the constructor
  throws), \<open>path.extname\<close>, \<open>JSON.stringify\<close> of a snapshot tree and
  \<open>JSON.stringify(assetMap, null, 2)\<close>.
\<close>

record platform =
  md5_hex :: "bytes \<Rightarrow> string"
  utf8 :: "jsstring \<Rightarrow> bytes"
  url_pathname :: "string \<Rightarrow> string option"
  path_extname :: "string \<Rightarrow> string"
  json_stringify :: "snapshot \<Rightarrow> jsstring"
  json_of_map :: "(string \<rightharpoonup> string) \<Rightarrow> jsstring"

section \<open>Configuration\<close>

text \<open>
  \<open>path.join(dir, name)\<close> for the names the tool builds (a hex digest and an extension, a
  snapshot name): no segment is empty, \<open>.\<close> or \<open>..\<close>, so joining is concatenation with
  one separator.
\<close>

definition path_join :: "string \<Rightarrow> string \<Rightarrow> string" where
  "path_join dir name = dir @ ''/'' @ name"

definition OUTPUT_DIR :: string where "OUTPUT_DIR = ''captured_data''"
definition TEXTURES_DIR :: string where "TEXTURES_DIR = path_join OUTPUT_DIR ''textures''"
definition SCRIPTS_DIR :: string where "SCRIPTS_DIR = path_join OUTPUT_DIR ''scripts''"
definition SNAPSHOTS_DIR :: string where "SNAPSHOTS_DIR = path_join OUTPUT_DIR ''snapshots''"
definition ASSETS_MAP_FILE :: string where
  "ASSETS_MAP_FILE = path_join OUTPUT_DIR ''assets_map.json''"

section \<open>Responses and extension inference\<close>

text \<open>
  A response as the handlers read it: \<open>url()\<close>, \<open>status()\<close>, \<open>ok()\<close>, \<open>headers()\<close>
  (names lower-cased by the driver), the outcome of \<open>await body()\<close> (\<open>None\<close> when the
  promise rejects) and, of its request, \<open>request().method()\<close> and \<open>resourceType()\<close>.
\<close>

record response =
  url :: string
  status :: nat
  ok :: bool
  headers :: "(string \<times> string) list"
  body :: "bytes option"
  request_method :: string
  resourceType :: string

datatype error = TypeError | BodyError | IOError

text \<open>\<open>response.headers()['content-type'] || ''\<close>\<close>

definition contentType_of :: "response \<Rightarrow> string" where
  "contentType_of r = (case map_of (headers r) ''content-type'' of None \<Rightarrow> [] | Some v \<Rightarrow> v)"

definition getExtension :: "platform \<Rightarrow> response \<Rightarrow> string \<Rightarrow> error + string" where
  "getExtension P r type =
     (let contentType = contentType_of r in
      if includes_str contentType ''image/png'' then Inr ''.png''
      else if includes_str contentType ''image/jpeg'' then Inr ''.jpg''
      else if includes_str contentType ''image/webp'' then Inr ''.webp''
      else if includes_str contentType ''image/gif'' then Inr ''.gif''
      else if includes_str contentType ''javascript''
              \<or> includes_str contentType ''application/x-javascript'' then Inr ''.js''
      else case url_pathname P (url r) of
             None \<Rightarrow> Inl TypeError
           | Some pathname \<Rightarrow>
               (let urlExt = path_extname P pathname in
                if urlExt \<noteq> [] then Inr urlExt
                else Inr (if type = ''image'' then ''.png'' else ''.js'')))"

text \<open>
  The inference order in the specification's words: an exact match of the content type
  against the known content-type strings gives the extension of the fixed table; else the
  extension of the URL's path when it is not empty; else the default of the category. The
  known strings are the six the code names.
\<close>

definition extension_table :: "(string \<times> string) list" where
  "extension_table =
     [(''image/png'', ''.png''), (''image/jpeg'', ''.jpg''), (''image/webp'', ''.webp''),
      (''image/gif'', ''.gif''), (''javascript'', ''.js''),
      (''application/x-javascript'', ''.js'')]"

definition category_default :: "string \<Rightarrow> string" where
  "category_default type = (if type = ''image'' then ''.png'' else ''.js'')"

definition spec_extension :: "string \<Rightarrow> string \<Rightarrow> string \<Rightarrow> string" where
  "spec_extension contentType urlExt type =
     (case map_of extension_table contentType of
        Some ext \<Rightarrow> ext
      | None \<Rightarrow> if urlExt \<noteq> [] then urlExt else category_default type)"

section \<open>The DOM and the snapshot tree\<close>

text \<open>
  An element as \<open>traverse\<close> reads it: \<open>tagName\<close>, \<open>id\<close>, \<open>className\<close>, its
  attributes (name and value, in order), \<open>window.getComputedStyle(el)\<close> as a function from
  property name to value, and \<open>childNodes\<close>. A child node is an element, a text node
  (\<open>nodeType === 3\<close>) or any other node (comment, CDATA, processing instruction).
\<close>

datatype element = Element
  (tagName: jsstring) (elem_id: jsstring) (className: jsstring)
  (attributes: "(jsstring \<times> jsstring) list")
  (computedStyle: "string \<Rightarrow> jsstring")
  (childNodes: "dom_node list")
and dom_node = ElementNode element | TextNode jsstring | OtherNode

text \<open>\<open>String.prototype.trim\<close>: white space and line terminators go, at both ends.\<close>

definition is_js_whitespace :: "16 word \<Rightarrow> bool" where
  "is_js_whitespace c \<longleftrightarrow>
     c \<in> set [9, 10, 11, 12, 13, 32, 160, 5760, 8232, 8233, 8239, 8287, 12288, 65279]
     \<or> (8192 \<le> c \<and> c \<le> 8202)"

definition trim :: "jsstring \<Rightarrow> jsstring" where
  "trim s = rev (dropWhile is_js_whitespace (rev (dropWhile is_js_whitespace s)))"

text \<open>
  \<open>el.childNodes.length === 1 && el.childNodes[0].nodeType === 3 ? el.textContent.trim() : null\<close>;
  the \<open>textContent\<close> of an element whose only child is a text node is that node's text.
\<close>

definition textContent_of :: "dom_node list \<Rightarrow> jsstring option" where
  "textContent_of nodes = (case nodes of [TextNode t] \<Rightarrow> Some (trim t) | _ \<Rightarrow> None)"

text \<open>The properties \<open>getComputedStyles\<close> copies, in the order of the object literal.\<close>

definition style_properties :: "string list" where
  "style_properties =
     [''display'', ''position'', ''top'', ''left'', ''right'', ''bottom'', ''width'', ''height'',
      ''marginTop'', ''marginRight'', ''marginBottom'', ''marginLeft'',
      ''paddingTop'', ''paddingRight'', ''paddingBottom'', ''paddingLeft'',
      ''flexDirection'', ''flexWrap'', ''justifyContent'', ''alignItems'', ''alignContent'',
      ''flexGrow'', ''flexShrink'',
      ''backgroundColor'', ''backgroundImage'', ''opacity'', ''visibility'', ''zIndex'',
      ''borderWidth'', ''borderColor'', ''borderStyle'', ''borderRadius'',
      ''color'', ''fontSize'', ''fontFamily'', ''fontWeight'', ''textAlign'', ''whiteSpace'']"

text \<open>
  \<open>getComputedStyles\<close>. Its guard \<open>if (!s) return {}\<close> is not a branch here: \<open>traverse\<close>
  reads \<open>window.getComputedStyle(el).display\<close> of the same element first, so the style
  object exists whenever \<open>getComputedStyles\<close> is reached.
\<close>

definition getComputedStyles :: "(string \<Rightarrow> jsstring) \<Rightarrow> (string \<times> jsstring) list" where
  "getComputedStyles s = map (\<lambda>property. (property, s property)) style_properties"

definition excluded_tags :: "jsstring list" where
  "excluded_tags =
     map js [''SCRIPT'', ''STYLE'', ''NOSCRIPT'', ''IFRAME'', ''LINK'', ''META'', ''HEAD'', ''TITLE'']"

text \<open>
  \<open>traverse\<close>, with its loop over \<open>el.children\<close> (the element children, in order) as
  \<open>traverse_children\<close> over \<open>childNodes\<close>; \<open>None\<close> is the \<open>null\<close> it returns.
\<close>

fun traverse :: "element \<Rightarrow> snapshot option"
  and traverse_children :: "dom_node list \<Rightarrow> snapshot list" where
  "traverse (Element tag ident cls attrs style nodes) =
     (if tag \<in> set excluded_tags then None
      else if style ''display'' = js ''none'' then None
      else Some (Node tag ident cls (textContent_of nodes) attrs (getComputedStyles style)
                   (traverse_children nodes)))"
| "traverse_children [] = []"
| "traverse_children (ElementNode child # rest) =
     (case traverse child of
        None \<Rightarrow> traverse_children rest
      | Some childNode \<Rightarrow> childNode # traverse_children rest)"
| "traverse_children (TextNode t # rest) = traverse_children rest"
| "traverse_children (OtherNode # rest) = traverse_children rest"

text \<open>All nodes of a snapshot tree, the root first.\<close>

fun nodes_of :: "snapshot \<Rightarrow> snapshot list" where
  "nodes_of (Node tag ident cls txt attrs sty kids) =
     Node tag ident cls txt attrs sty kids # concat (map nodes_of kids)"

text \<open>
  The elements the pruning rule keeps, in document order: an element with an excluded tag
  or computed \<open>display: none\<close> is pruned and contributes neither itself nor anything
  below it; any other element contributes itself and then what its element children
  contribute.
\<close>

definition pruned :: "element \<Rightarrow> bool" where
  "pruned el \<longleftrightarrow>
     tagName el \<in> set excluded_tags \<or> computedStyle el ''display'' = js ''none''"

fun kept_elements :: "element \<Rightarrow> element list"
  and kept_below :: "dom_node list \<Rightarrow> element list" where
  "kept_elements (Element tag ident cls attrs style nodes) =
     (if pruned (Element tag ident cls attrs style nodes) then []
      else Element tag ident cls attrs style nodes # kept_below nodes)"
| "kept_below [] = []"
| "kept_below (ElementNode child # rest) = kept_elements child @ kept_below rest"
| "kept_below (TextNode t # rest) = kept_below rest"
| "kept_below (OtherNode # rest) = kept_below rest"

section \<open>The change gate's hash\<close>

text \<open>
  \<open>ToInt32\<close>: the value modulo \<open>2^32\<close>, read as two's complement. \<open>hash << 5\<close> is
  \<open>ToInt32 (hash * 32)\<close>; the subtraction and the addition are exact (far below
  \<open>2^53\<close>); \<open>hash & hash\<close> is \<open>ToInt32\<close> again.
\<close>

definition toInt32 :: "int \<Rightarrow> int" where
  "toInt32 x = (x + 2 ^ 31) mod 2 ^ 32 - 2 ^ 31"

definition simpleHash_step :: "int \<Rightarrow> 16 word \<Rightarrow> int" where
  "simpleHash_step hash c = toInt32 ((toInt32 (toInt32 hash * 32) - hash) + uint c)"

definition simpleHash :: "jsstring \<Rightarrow> int" where
  "simpleHash str = foldl simpleHash_step 0 str"

text \<open>Decimal digits of a natural number, and \<open>Number.prototype.toString\<close> of an integer.\<close>

fun digits :: "nat \<Rightarrow> string" where
  "digits n = (if n < 10 then [''0123456789'' ! n]
               else digits (n div 10) @ [''0123456789'' ! (n mod 10)])"

declare digits.simps [simp del]

definition toString :: "int \<Rightarrow> string" where
  "toString i = (if i < 0 then CHR ''-'' # digits (nat (- i)) else digits (nat i))"

section \<open>Host state and effects\<close>

text \<open>
  What the handlers change: the files below \<open>captured_data\<close>, the in-memory
  \<open>assetMap\<close>, the records written to the two log streams during the session, the
  console, and, in the page, the sampler's \<open>lastHash\<close>. \<open>io_trace\<close> records each body
  read and each \<open>fs.writeFileSync\<close> call that is issued, whether it succeeds or throws.
\<close>

datatype payload = TextPayload jsstring | BinaryPayload bytes

record request =
  req_method :: string
  req_url :: string
  req_headers :: "(string \<times> string) list"
  postData :: "jsstring option"

datatype log_entry =
    HTTP_RESPONSE (entry_timestamp: nat) string string nat "(string \<times> string) list" "string option"
  | HTTP_REQUEST (entry_timestamp: nat) string string "(string \<times> string) list" "jsstring option"
  | WS_SENT (entry_timestamp: nat) string payload
  | WS_RECEIVED (entry_timestamp: nat) string payload

datatype console_msg =
    Saved string string string
  | FailedToSave string string error
  | SavedSnapshot string
  | FailedToSaveSnapshot error
  | WebSocketOpened string
  | SavedAssetsMap

datatype io_op = BodyRead string | FileWrite string

datatype io_outcome = Succeeds | Throws

datatype stream = HttpLog | WsLog

record state =
  fs :: "string \<rightharpoonup> bytes"
  assetMap :: "string \<rightharpoonup> string"
  httpLogStream :: "log_entry list"
  wsLogStream :: "log_entry list"
  console :: "console_msg list"
  io_trace :: "io_op list"
  lastHash :: jsstring

definition console_write :: "console_msg \<Rightarrow> state \<Rightarrow> state" where
  "console_write m st = st\<lparr>console := console st @ [m]\<rparr>"

definition trace :: "io_op \<Rightarrow> state \<Rightarrow> state" where
  "trace op st = st\<lparr>io_trace := io_trace st @ [op]\<rparr>"

text \<open>
  \<open>saveSnapshot\<close>, the function exposed to the page. \<open>now\<close> is what \<open>Date.now()\<close>
  returns, \<open>w\<close> whether \<open>fs.writeFileSync\<close> succeeds or throws; a write that throws is
  taken to leave the files as they were. The \<open>catch\<close> logs and returns.
\<close>

definition snapshot_filename :: "nat \<Rightarrow> string \<Rightarrow> string" where
  "snapshot_filename timestamp hash = ''snapshot_'' @ digits timestamp @ ''_'' @ hash @ ''.json''"

definition saveSnapshot :: "platform \<Rightarrow> nat \<Rightarrow> io_outcome \<Rightarrow> jsstring \<Rightarrow> state \<Rightarrow> state" where
  "saveSnapshot P now w jsonString st =
     (let timestamp = now;
          hash = take 8 (md5_hex P (utf8 P jsonString));
          filename = snapshot_filename timestamp hash;
          filepath = path_join SNAPSHOTS_DIR filename;
          st1 = trace (FileWrite filepath) st
      in case w of
           Succeeds \<Rightarrow>
             console_write (SavedSnapshot filename)
               (st1\<lparr>fs := (fs st1)(filepath \<mapsto> utf8 P jsonString)\<rparr>)
         | Throws \<Rightarrow> console_write (FailedToSaveSnapshot IOError) st1)"

text \<open>
  \<open>saveFile\<close>. Everything is inside the \<open>try\<close>: a rejected \<open>response.body()\<close>, a
  \<open>TypeError\<close> from \<open>getExtension\<close> and a throwing \<open>fs.writeFileSync\<close> all end in the
  \<open>catch\<close>, which logs to the console; \<open>assetMap[url] = filename\<close> is reached only when
  nothing threw.
\<close>

definition saveFile :: "platform \<Rightarrow> io_outcome \<Rightarrow> response \<Rightarrow> string \<Rightarrow> string \<Rightarrow> state \<Rightarrow> state" where
  "saveFile P w r type dir st =
     (let st1 = trace (BodyRead (url r)) st in
      case body r of
        None \<Rightarrow> console_write (FailedToSave type (url r) BodyError) st1
      | Some buffer \<Rightarrow>
          (let hash = md5_hex P buffer in
           case getExtension P r type of
             Inl e \<Rightarrow> console_write (FailedToSave type (url r) e) st1
           | Inr ext \<Rightarrow>
               (let filename = hash @ ext;
                    filepath = path_join dir filename
                in if fs st1 filepath = None then
                     (let st2 = trace (FileWrite filepath) st1 in
                      case w of
                        Throws \<Rightarrow> console_write (FailedToSave type (url r) IOError) st2
                      | Succeeds \<Rightarrow>
                          (let st3 = console_write (Saved type (url r) filename)
                                       (st2\<lparr>fs := (fs st2)(filepath \<mapsto> buffer)\<rparr>)
                           in st3\<lparr>assetMap := (assetMap st3)(url r \<mapsto> filename)\<rparr>))
                   else st1\<lparr>assetMap := (assetMap st1)(url r \<mapsto> filename)\<rparr>)))"

text \<open>\<open>logToStream\<close>: one line \<open>JSON.stringify(data) + '\n'\<close> per call, appended.\<close>

definition logToStream :: "stream \<Rightarrow> log_entry \<Rightarrow> state \<Rightarrow> state" where
  "logToStream stream data st =
     (case stream of
        HttpLog \<Rightarrow> st\<lparr>httpLogStream := httpLogStream st @ [data]\<rparr>
      | WsLog \<Rightarrow> st\<lparr>wsLogStream := wsLogStream st @ [data]\<rparr>)"

text \<open>
  The handlers of \<open>page.on('response')\<close>, \<open>page.on('request')\<close>, \<open>page.on('websocket')\<close>
  and of the frames of a socket. \<open>now\<close> is the time of \<open>new Date()\<close>; the record keeps
  the time value, of which \<open>toISOString()\<close> is a rendering. The part of the response
  handler after \<open>await response.body()\<close> touches only files, the asset map and the
  console, the part before it only the log stream, so the handler is one step.
\<close>

definition on_response :: "platform \<Rightarrow> nat \<Rightarrow> io_outcome \<Rightarrow> response \<Rightarrow> state \<Rightarrow> state" where
  "on_response P now w r st =
     (let type = resourceType r;
          logEntry = HTTP_RESPONSE now (request_method r) (url r) (status r) (headers r)
                       (map_of (headers r) ''content-type'');
          st1 = logToStream HttpLog logEntry st
      in if ok r then
           (if type = ''image'' then saveFile P w r ''image'' TEXTURES_DIR st1
            else if type = ''script'' then saveFile P w r ''script'' SCRIPTS_DIR st1
            else st1)
         else st1)"

definition on_request :: "nat \<Rightarrow> request \<Rightarrow> state \<Rightarrow> state" where
  "on_request now rq st =
     logToStream HttpLog
       (HTTP_REQUEST now (req_method rq) (req_url rq) (req_headers rq) (postData rq)) st"

definition on_websocket :: "string \<Rightarrow> state \<Rightarrow> state" where
  "on_websocket ws_url st = console_write (WebSocketOpened ws_url) st"

definition on_framesent :: "nat \<Rightarrow> string \<Rightarrow> payload \<Rightarrow> state \<Rightarrow> state" where
  "on_framesent now ws_url p st = logToStream WsLog (WS_SENT now ws_url p) st"

definition on_framereceived :: "nat \<Rightarrow> string \<Rightarrow> payload \<Rightarrow> state \<Rightarrow> state" where
  "on_framereceived now ws_url p st = logToStream WsLog (WS_RECEIVED now ws_url p) st"

section \<open>The sampler\<close>

text \<open>
  One run of the \<open>setInterval\<close> callback in the page: the new \<open>lastHash\<close> and the string
  forwarded to \<open>window.saveSnapshot\<close>, if any. \<open>document_body\<close> is \<open>None\<close> when
  \<open>document.body\<close> is absent.
\<close>

definition sampler_cycle :: "platform \<Rightarrow> element option \<Rightarrow> jsstring \<Rightarrow> jsstring \<times> jsstring option" where
  "sampler_cycle P document_body stored =
     (case document_body of
        None \<Rightarrow> (stored, None)
      | Some b \<Rightarrow>
          (case traverse b of
             None \<Rightarrow> (stored, None)
           | Some tree \<Rightarrow>
               (let jsonString = json_stringify P tree;
                    currentHash = js (toString (simpleHash jsonString))
                in if currentHash \<noteq> stored then (currentHash, Some jsonString)
                   else (stored, None))))"

definition on_tick :: "platform \<Rightarrow> nat \<Rightarrow> io_outcome \<Rightarrow> element option \<Rightarrow> state \<Rightarrow> state" where
  "on_tick P now w document_body st =
     (case sampler_cycle P document_body (lastHash st) of
        (h, None) \<Rightarrow> st\<lparr>lastHash := h\<rparr>
      | (h, Some jsonString) \<Rightarrow> saveSnapshot P now w jsonString (st\<lparr>lastHash := h\<rparr>))"

section \<open>Sessions\<close>

text \<open>
  The events the driver delivers, each with what the environment decides at that moment:
  the clock reading (\<open>new Date()\<close> in a logging handler, \<open>Date.now()\<close> when the host
  runs \<open>saveSnapshot\<close> for a sampler cycle) and the outcome of a file write, should the
  handler issue one. \<open>PageLoaded\<close> is a run of the init script in a fresh page context,
  which starts with \<open>lastHash = ''\<close>; one page context is sampled at a time.
\<close>

datatype event =
    RequestEvent nat request
  | ResponseEvent nat io_outcome response
  | WebSocketEvent string
  | FrameSent nat string payload
  | FrameReceived nat string payload
  | PageLoaded
  | SamplerTick nat io_outcome "element option"

fun handle :: "platform \<Rightarrow> event \<Rightarrow> state \<Rightarrow> state" where
  "handle P (RequestEvent now rq) st = on_request now rq st"
| "handle P (ResponseEvent now w r) st = on_response P now w r st"
| "handle P (WebSocketEvent ws_url) st = on_websocket ws_url st"
| "handle P (FrameSent now ws_url p) st = on_framesent now ws_url p st"
| "handle P (FrameReceived now ws_url p) st = on_framereceived now ws_url p st"
| "handle P PageLoaded st = st\<lparr>lastHash := []\<rparr>"
| "handle P (SamplerTick now w document_body) st = on_tick P now w document_body st"

definition run :: "platform \<Rightarrow> event list \<Rightarrow> state \<Rightarrow> state" where
  "run P events st = fold (handle P) events st"

text \<open>
  The start of a session over the files \<open>files\<close> already on disk, and its end after the
  page's \<open>close\<close> event: \<open>fs.writeFileSync(ASSETS_MAP_FILE, JSON.stringify(assetMap, null, 2))\<close>,
  outside any \<open>try\<close>, so a throw ends the program with the error.
\<close>

definition start :: "(string \<rightharpoonup> bytes) \<Rightarrow> state" where
  "start files = \<lparr>fs = files, assetMap = Map.empty, httpLogStream = [], wsLogStream = [],
                  console = [], io_trace = [], lastHash = []\<rparr>"

definition finish :: "platform \<Rightarrow> io_outcome \<Rightarrow> state \<Rightarrow> state \<times> error option" where
  "finish P w st =
     (let st1 = trace (FileWrite ASSETS_MAP_FILE) st in
      case w of
        Throws \<Rightarrow> (st1, Some IOError)
      | Succeeds \<Rightarrow>
          (console_write SavedAssetsMap
             (st1\<lparr>fs := (fs st1)(ASSETS_MAP_FILE \<mapsto> utf8 P (json_of_map P (assetMap st1)))\<rparr>),
           None))"

definition session :: "platform \<Rightarrow> (string \<rightharpoonup> bytes) \<Rightarrow> event list \<Rightarrow> io_outcome \<Rightarrow> state \<times> error option" where
  "session P files events w = finish P w (run P events (start files))"

section \<open>Observations\<close>

text \<open>
  Functions that only read events and states, for stating what a run did: the record a
  handler writes for an event, the clock reading it stamps, the URL a response event is
  for, how often a write to a path was issued, the path \<open>saveSnapshot\<close> writes to, and
  whether a sampler cycle gets as far as serializing a tree.
\<close>

definition response_entry :: "nat \<Rightarrow> response \<Rightarrow> log_entry" where
  "response_entry now r =
     HTTP_RESPONSE now (request_method r) (url r) (status r) (headers r)
       (map_of (headers r) ''content-type'')"

fun http_record :: "event \<Rightarrow> log_entry option" where
  "http_record (RequestEvent now rq) =
     Some (HTTP_REQUEST now (req_method rq) (req_url rq) (req_headers rq) (postData rq))"
| "http_record (ResponseEvent now w r) = Some (response_entry now r)"
| "http_record ev = None"

fun ws_record :: "event \<Rightarrow> log_entry option" where
  "ws_record (FrameSent now ws_url p) = Some (WS_SENT now ws_url p)"
| "ws_record (FrameReceived now ws_url p) = Some (WS_RECEIVED now ws_url p)"
| "ws_record ev = None"

fun http_clock :: "event \<Rightarrow> nat option" where
  "http_clock (RequestEvent now rq) = Some now"
| "http_clock (ResponseEvent now w r) = Some now"
| "http_clock ev = None"

fun response_url :: "event \<Rightarrow> string option" where
  "response_url (ResponseEvent now w r) = Some (url r)"
| "response_url ev = None"

definition writes_to :: "string \<Rightarrow> state \<Rightarrow> nat" where
  "writes_to path st = length (filter (\<lambda>op. op = FileWrite path) (io_trace st))"

definition snapshot_path :: "platform \<Rightarrow> nat \<Rightarrow> jsstring \<Rightarrow> string" where
  "snapshot_path P now jsonString =
     path_join SNAPSHOTS_DIR
       (snapshot_filename now (take 8 (md5_hex P (utf8 P jsonString))))"

fun computes_snapshot :: "event \<Rightarrow> bool" where
  "computes_snapshot (SamplerTick now w (Some b)) = (traverse b \<noteq> None)"
| "computes_snapshot ev = False"

text \<open>The number a string of decimal digits denotes.\<close>

definition decimal_value :: "string \<Rightarrow> nat" where
  "decimal_value ds = foldl (\<lambda>acc c. 10 * acc + (of_char c - 48)) 0 ds"

section \<open>A platform to run the model on\<close>

text \<open>
  An instance of the library parameters for evaluating the model on concrete inputs. The
  digest is a stand-in of the right shape (32 hex digits, a function of the bytes alone);
  path name and extension follow the library on plain \<open>scheme://host/path?query\<close> URLs and
  ordinary file names; the serializers are stand-ins. No theorem below depends on this
  instance: each is proved for every platform.
\<close>

definition sample_digest :: "bytes \<Rightarrow> string" where
  "sample_digest b =
     take 32 (map (\<lambda>w. ''0123456789abcdef'' ! (unat w mod 16)) (rev b)
              @ ''00000000000000000000000000000000'')"

definition sample_pathname :: "string \<Rightarrow> string option" where
  "sample_pathname u =
     (case dropWhile (\<lambda>c. c \<noteq> CHR ''/'') u of
        CHR ''/'' # CHR ''/'' # rest \<Rightarrow>
          (let p = takeWhile (\<lambda>c. c \<noteq> CHR ''?'' \<and> c \<noteq> CHR ''#'')
                     (dropWhile (\<lambda>c. c \<noteq> CHR ''/'') rest)
           in Some (if p = [] then ''/'' else p))
      | _ \<Rightarrow> None)"

definition sample_extname :: "string \<Rightarrow> string" where
  "sample_extname p =
     (let base = rev (takeWhile (\<lambda>c. c \<noteq> CHR ''/'') (dropWhile (\<lambda>c. c = CHR ''/'') (rev p)));
          after = rev (takeWhile (\<lambda>c. c \<noteq> CHR ''.'') (rev base))
      in if CHR ''.'' \<notin> set base \<or> length base \<le> length after + 1 \<or> base = ''..'' then []
         else CHR ''.'' # after)"

fun sample_stringify :: "snapshot \<Rightarrow> jsstring" where
  "sample_stringify (Node tag ident cls txt attrs sty kids) =
     js ''<'' @ tag @ concat (map snd sty) @ concat (map sample_stringify kids) @ js ''>''"

definition sample_platform :: platform where
  "sample_platform =
     \<lparr>md5_hex = sample_digest, utf8 = map ucast, url_pathname = sample_pathname,
      path_extname = sample_extname, json_stringify = sample_stringify,
      json_of_map = (\<lambda>m. js ''{}'')\<rparr>"

section \<open>Sample inputs\<close>

text \<open>
  Responses: the same three bytes served as \<open>image/png\<close> under two URLs and as
  \<open>image/jpeg\<close>; the same bytes with a content type outside the table under URLs ending
  in \<open>.png\<close> and \<open>.jpg\<close>; a \<open>webp\<close> image whose URL ends in \<open>.jpg\<close> and which
  carries \<open>image/png\<close> in another header; a script served as
  \<open>text/javascript; charset=utf-8\<close> from a \<open>.php\<close> URL; two responses without a
  \<open>content-type\<close> header, one with and one without an extension in the URL; a 404; a
  response whose body cannot be read. The paths and names are what the sample platform
  gives for them.
\<close>

definition webp_response :: response where
  "webp_response =
     \<lparr>url = ''https://skazka.mobi/img/hero.jpg'', status = 200, ok = True,
      headers = [(''x-original-content-type'', ''image/png''), (''content-type'', ''image/webp'')],
      body = Some [1, 2, 3], request_method = ''GET'', resourceType = ''image''\<rparr>"

definition loader_js :: response where
  "loader_js =
     \<lparr>url = ''https://skazka.mobi/js/loader.php?v=3'', status = 200, ok = True,
      headers = [(''content-type'', ''text/javascript; charset=utf-8'')],
      body = Some [4, 5, 6], request_method = ''GET'', resourceType = ''script''\<rparr>"

definition untyped_module :: response where
  "untyped_module =
     \<lparr>url = ''https://skazka.mobi/js/game.mjs'', status = 200, ok = True,
      headers = [(''server'', ''nginx'')],
      body = Some [7, 8, 9], request_method = ''GET'', resourceType = ''script''\<rparr>"

definition untyped_asset :: response where
  "untyped_asset =
     \<lparr>url = ''https://skazka.mobi/asset/42'', status = 200, ok = True,
      headers = [(''content-length'', ''3'')],
      body = Some [7, 8, 9], request_method = ''GET'', resourceType = ''image''\<rparr>"

definition hero_png :: response where
  "hero_png =
     \<lparr>url = ''https://skazka.mobi/img/hero.png'', status = 200, ok = True,
      headers = [(''content-type'', ''image/png'')], body = Some [1, 2, 3],
      request_method = ''GET'', resourceType = ''image''\<rparr>"

definition hero_copy_png :: response where
  "hero_copy_png =
     \<lparr>url = ''https://cdn.skazka.mobi/cache/hero.png'', status = 200, ok = True,
      headers = [(''content-type'', ''image/png'')], body = Some [1, 2, 3],
      request_method = ''GET'', resourceType = ''image''\<rparr>"

definition hero_jpeg :: response where
  "hero_jpeg =
     \<lparr>url = ''https://cdn.skazka.mobi/cache/hero'', status = 200, ok = True,
      headers = [(''content-type'', ''image/jpeg'')], body = Some [1, 2, 3],
      request_method = ''GET'', resourceType = ''image''\<rparr>"

definition hero_png_path :: string where
  "hero_png_path = ''captured_data/textures/32100000000000000000000000000000.png''"

definition hero_jpeg_path :: string where
  "hero_jpeg_path = ''captured_data/textures/32100000000000000000000000000000.jpg''"

definition sprite_a :: response where
  "sprite_a =
     \<lparr>url = ''https://skazka.mobi/a.png'', status = 200, ok = True,
      headers = [(''content-type'', ''application/octet-stream'')], body = Some [1, 2, 3],
      request_method = ''GET'', resourceType = ''image''\<rparr>"

definition sprite_b :: response where
  "sprite_b =
     \<lparr>url = ''https://skazka.mobi/b.jpg'', status = 200, ok = True,
      headers = [(''content-type'', ''application/octet-stream'')], body = Some [1, 2, 3],
      request_method = ''GET'', resourceType = ''image''\<rparr>"

definition sprite_a_name :: string where
  "sprite_a_name = ''32100000000000000000000000000000.png''"

definition sprite_b_name :: string where
  "sprite_b_name = ''32100000000000000000000000000000.jpg''"

definition missing_png :: response where
  "missing_png =
     \<lparr>url = ''https://skazka.mobi/img/gone.png'', status = 404, ok = False,
      headers = [(''content-type'', ''image/png'')], body = Some [4, 0, 4],
      request_method = ''GET'', resourceType = ''image''\<rparr>"

definition unreadable_png :: response where
  "unreadable_png =
     \<lparr>url = ''https://skazka.mobi/img/big.png'', status = 200, ok = True,
      headers = [(''content-type'', ''image/png'')], body = None,
      request_method = ''GET'', resourceType = ''image''\<rparr>"

text \<open>A request, two frames and a short session.\<close>

definition hero_request :: request where
  "hero_request = \<lparr>req_method = ''GET'', req_url = ''https://skazka.mobi/img/hero.png'',
                     req_headers = [(''accept'', ''image/*'')], postData = None\<rparr>"

definition ping_frame :: event where
  "ping_frame = FrameSent 1500 ''wss://skazka.mobi/ws'' (TextPayload (js ''ping''))"

definition pong_frame :: event where
  "pong_frame = FrameReceived 1600 ''wss://skazka.mobi/ws'' (TextPayload (js ''pong''))"

definition logged_events :: "event list" where
  "logged_events =
     [RequestEvent 1000 hero_request, ResponseEvent 1200 Succeeds hero_png, ping_frame,
      pong_frame, PageLoaded, ResponseEvent 1700 Succeeds missing_png]"

text \<open>
  Pages. \<open>page_a\<close> has a script with a child, a comment, a \<open>display: none\<close> block with
  a child and a block of opacity \<open>0\<close>; \<open>page_b\<close> has the script only; \<open>hidden_page\<close>
  is a body with \<open>display: none\<close>. \<open>tree_a\<close> and \<open>tree_b\<close> are the snapshots of the
  first two, \<open>path_a\<close> and \<open>path_b\<close> the files they are saved to at clock reading
  \<open>1700000000000\<close>.
\<close>

definition style_of :: "string \<Rightarrow> string \<Rightarrow> string \<Rightarrow> jsstring" where
  "style_of display opacity =
     (\<lambda>property. if property = ''display'' then js display
                  else if property = ''opacity'' then js opacity else [])"

definition tracker :: element where
  "tracker = Element (js ''SCRIPT'') [] [] [] (style_of ''block'' ''1'')
               [ElementNode (Element (js ''B'') [] [] [] (style_of ''inline'' ''1'') [])]"

definition popup :: element where
  "popup = Element (js ''DIV'') (js ''popup'') [] [] (style_of ''none'' ''1'')
             [ElementNode (Element (js ''P'') [] [] [] (style_of ''block'' ''1'') [])]"

definition banner :: element where
  "banner = Element (js ''DIV'') (js ''banner'') (js ''faded'') [(js ''title'', js ''hi'')]
              (style_of ''block'' ''0'') [TextNode (js '' hello '')]"

definition page_a :: element where
  "page_a = Element (js ''BODY'') [] [] [] (style_of ''block'' ''1'')
              [ElementNode tracker, OtherNode, ElementNode popup, ElementNode banner]"

definition page_b :: element where
  "page_b = Element (js ''BODY'') [] [] [] (style_of ''block'' ''1'') [ElementNode tracker]"

definition hidden_page :: element where
  "hidden_page = Element (js ''BODY'') [] [] [] (style_of ''none'' ''1'') [ElementNode banner]"

definition banner_node :: snapshot where
  "banner_node = Node (js ''DIV'') (js ''banner'') (js ''faded'') (Some (js ''hello''))
                   [(js ''title'', js ''hi'')] (getComputedStyles (style_of ''block'' ''0'')) []"

definition tree_a :: snapshot where
  "tree_a = Node (js ''BODY'') [] [] None [] (getComputedStyles (style_of ''block'' ''1''))
              [banner_node]"

definition tree_b :: snapshot where
  "tree_b = Node (js ''BODY'') [] [] None [] (getComputedStyles (style_of ''block'' ''1'')) []"

text \<open>
  A page with the same three elements one level down, inside a block that is kept, and
  its snapshot.
\<close>

definition wrapper :: element where
  "wrapper = Element (js ''DIV'') (js ''wrap'') [] [] (style_of ''flex'' ''1'')
               [ElementNode tracker, ElementNode popup, ElementNode banner]"

definition page_nested :: element where
  "page_nested = Element (js ''BODY'') [] [] [] (style_of ''block'' ''1'')
                   [TextNode (js ''x''), ElementNode wrapper]"

definition wrapper_node :: snapshot where
  "wrapper_node = Node (js ''DIV'') (js ''wrap'') [] None []
                    (getComputedStyles (style_of ''flex'' ''1'')) [banner_node]"

definition tree_nested :: snapshot where
  "tree_nested = Node (js ''BODY'') [] [] None [] (getComputedStyles (style_of ''block'' ''1''))
                   [wrapper_node]"

definition path_a :: string where
  "path_a = ''captured_data/snapshots/snapshot_1700000000000_ee0b3fc2.json''"

definition path_b :: string where
  "path_b = ''captured_data/snapshots/snapshot_1700000000000_e1b3fc29.json''"

section \<open>Extension inference\<close>

lemma x_javascript_includes_javascript:
  "includes_str ct ''application/x-javascript'' \<Longrightarrow> includes_str ct ''javascript''"
proof -
  assume "includes_str ct ''application/x-javascript''"
  then obtain ps ss where "ct = ps @ ''application/x-javascript'' @ ss"
    unfolding includes_str_def sublist_def by blast
  then have "ct = (ps @ ''application/x-'') @ ''javascript'' @ ss" by simp
  then show ?thesis unfolding includes_str_def sublist_def by blast
qed

lemma includes_str_iff: "includes_str s sub \<longleftrightarrow> (\<exists>before after. s = before @ sub @ after)"
  by (simp add: includes_str_def sublist_def)

lemma exact_known_strings:
  assumes "map_of extension_table ct = Some ext"
  shows "(ct = ''image/png'' \<and> ext = ''.png'') \<or> (ct = ''image/jpeg'' \<and> ext = ''.jpg'')
     \<or> (ct = ''image/webp'' \<and> ext = ''.webp'') \<or> (ct = ''image/gif'' \<and> ext = ''.gif'')
     \<or> (ct = ''javascript'' \<and> ext = ''.js'')
     \<or> (ct = ''application/x-javascript'' \<and> ext = ''.js'')"
proof -
  from assms have "(ct, ext) \<in> set extension_table" by (rule map_of_SomeD)
  then show ?thesis by (simp add: extension_table_def)
qed

lemma known_strings_contain:
  "includes_str ''image/png'' ''image/png''"
  "\<not> includes_str ''image/jpeg'' ''image/png''" "includes_str ''image/jpeg'' ''image/jpeg''"
  "\<not> includes_str ''image/webp'' ''image/png''" "\<not> includes_str ''image/webp'' ''image/jpeg''"
  "includes_str ''image/webp'' ''image/webp''"
  "\<not> includes_str ''image/gif'' ''image/png''" "\<not> includes_str ''image/gif'' ''image/jpeg''"
  "\<not> includes_str ''image/gif'' ''image/webp''" "includes_str ''image/gif'' ''image/gif''"
  "\<not> includes_str ''javascript'' ''image/png''" "\<not> includes_str ''javascript'' ''image/jpeg''"
  "\<not> includes_str ''javascript'' ''image/webp''" "\<not> includes_str ''javascript'' ''image/gif''"
  "includes_str ''javascript'' ''javascript''"
  "\<not> includes_str ''application/x-javascript'' ''image/png''"
  "\<not> includes_str ''application/x-javascript'' ''image/jpeg''"
  "\<not> includes_str ''application/x-javascript'' ''image/webp''"
  "\<not> includes_str ''application/x-javascript'' ''image/gif''"
  "includes_str ''application/x-javascript'' ''javascript''"
  by (simp_all add: includes_str_def sublist_Cons_right)

text \<open>
  C3, as amended. The content type is the value of the header named \<open>content-type\<close>,
  or the empty string. \<open>getExtension\<close> tests containment (the known string occurs
  somewhere in the content type), in the order \<open>image/png\<close>, \<open>image/jpeg\<close>,
  \<open>image/webp\<close>, \<open>image/gif\<close>, \<open>javascript\<close>, and returns the extension of the first
  string contained; when none is contained it returns the extension of the URL's path if
  that is not empty, else \<open>.png\<close> for the category \<open>image\<close> and \<open>.js\<close> for any
  other; a URL that does not parse is a \<open>TypeError\<close> there. So a content type that is
  exactly a known string gets the extension of the table, and the result is the one of
  the specification's order whenever the content type is a known string or contains none;
  \<open>content-type: image/webp\<close> gives \<open>.webp\<close> whatever the URL.
\<close>

theorem getExtension_inference_order:
  assumes header: "contentType = (case map_of (headers r) ''content-type'' of
                                    None \<Rightarrow> [] | Some v \<Rightarrow> v)"
  shows "(includes_str s sub \<longleftrightarrow> (\<exists>before after. s = before @ sub @ after))
   \<and> (includes_str contentType ''image/png'' \<longrightarrow> getExtension P r type = Inr ''.png'')
   \<and> (\<not> includes_str contentType ''image/png'' \<and> includes_str contentType ''image/jpeg'' \<longrightarrow>
        getExtension P r type = Inr ''.jpg'')
   \<and> (\<not> includes_str contentType ''image/png'' \<and> \<not> includes_str contentType ''image/jpeg''
        \<and> includes_str contentType ''image/webp'' \<longrightarrow>
        getExtension P r type = Inr ''.webp'')
   \<and> (\<not> includes_str contentType ''image/png'' \<and> \<not> includes_str contentType ''image/jpeg''
        \<and> \<not> includes_str contentType ''image/webp'' \<and> includes_str contentType ''image/gif'' \<longrightarrow>
        getExtension P r type = Inr ''.gif'')
   \<and> (\<not> includes_str contentType ''image/png'' \<and> \<not> includes_str contentType ''image/jpeg''
        \<and> \<not> includes_str contentType ''image/webp'' \<and> \<not> includes_str contentType ''image/gif''
        \<and> includes_str contentType ''javascript'' \<longrightarrow>
        getExtension P r type = Inr ''.js'')
   \<and> (\<not> includes_str contentType ''image/png'' \<and> \<not> includes_str contentType ''image/jpeg''
        \<and> \<not> includes_str contentType ''image/webp'' \<and> \<not> includes_str contentType ''image/gif''
        \<and> \<not> includes_str contentType ''javascript'' \<longrightarrow>
        getExtension P r type =
          (case url_pathname P (url r) of
             None \<Rightarrow> Inl TypeError
           | Some pathname \<Rightarrow>
               Inr (if path_extname P pathname \<noteq> [] then path_extname P pathname
                    else if type = ''image'' then ''.png'' else ''.js'')))
   \<and> (map_of extension_table contentType = Some ext \<longrightarrow> getExtension P r type = Inr ext)
   \<and> (url_pathname P (url r) = Some pathname
        \<and> (contentType \<in> fst ` set extension_table
            \<or> (\<forall>known \<in> fst ` set extension_table. \<not> includes_str contentType known)) \<longrightarrow>
        getExtension P r type = Inr (spec_extension contentType (path_extname P pathname) type))
   \<and> (contentType = ''image/webp'' \<longrightarrow> getExtension P (r\<lparr>url := u\<rparr>) type = Inr ''.webp'')"
proof -
  have ct: "contentType_of r = contentType" "contentType_of (r\<lparr>url := u\<rparr>) = contentType"
    using header by (simp_all add: contentType_of_def)
  have meaning: "includes_str s sub \<longleftrightarrow> (\<exists>before after. s = before @ sub @ after)"
    by (rule includes_str_iff)
  have script: "\<not> includes_str contentType ''application/x-javascript''"
    if "\<not> includes_str contentType ''javascript''"
    using that x_javascript_includes_javascript by blast
  have chain: "getExtension P r type =
      (if includes_str contentType ''image/png'' then Inr ''.png''
       else if includes_str contentType ''image/jpeg'' then Inr ''.jpg''
       else if includes_str contentType ''image/webp'' then Inr ''.webp''
       else if includes_str contentType ''image/gif'' then Inr ''.gif''
       else if includes_str contentType ''javascript'' then Inr ''.js''
       else case url_pathname P (url r) of
              None \<Rightarrow> Inl TypeError
            | Some pathname \<Rightarrow>
                Inr (if path_extname P pathname \<noteq> [] then path_extname P pathname
                     else if type = ''image'' then ''.png'' else ''.js''))"
    using script by (auto simp: getExtension_def ct Let_def split: option.splits)
  have exact: "getExtension P r type = Inr e" if "map_of extension_table contentType = Some e" for e
    using exact_known_strings [OF that] unfolding chain
    by (elim disjE conjE) (simp_all add: known_strings_contain)
  have none: "map_of extension_table contentType = None"
    if "\<forall>known \<in> fst ` set extension_table. \<not> includes_str contentType known"
  proof (rule ccontr)
    assume "map_of extension_table contentType \<noteq> None"
    then obtain e where "map_of extension_table contentType = Some e" by blast
    then have "(contentType, e) \<in> set extension_table" by (rule map_of_SomeD)
    then have "contentType \<in> fst ` set extension_table" by force
    with that have "\<not> includes_str contentType contentType" by blast
    then show False by (simp add: includes_str_def)
  qed
  have agrees: "getExtension P r type
      = Inr (spec_extension contentType (path_extname P pathname) type)"
    if parsed: "url_pathname P (url r) = Some pathname"
      and either: "contentType \<in> fst ` set extension_table
         \<or> (\<forall>known \<in> fst ` set extension_table. \<not> includes_str contentType known)"
  proof (cases "contentType \<in> fst ` set extension_table")
    case True
    then obtain e where e: "map_of extension_table contentType = Some e"
      by (metis domD dom_map_of_conv_image_fst)
    from exact [OF e] e show ?thesis by (simp add: spec_extension_def)
  next
    case False
    with either have no: "\<forall>known \<in> fst ` set extension_table. \<not> includes_str contentType known"
      by blast
    then have "\<not> includes_str contentType ''image/png''" "\<not> includes_str contentType ''image/jpeg''"
      "\<not> includes_str contentType ''image/webp''" "\<not> includes_str contentType ''image/gif''"
      "\<not> includes_str contentType ''javascript''"
      by (simp_all add: extension_table_def)
    with none [OF no] parsed show ?thesis
      by (simp add: chain spec_extension_def category_default_def)
  qed
  have webp: "getExtension P (r\<lparr>url := u\<rparr>) type = Inr ''.webp''" if "contentType = ''image/webp''"
    using that by (simp add: getExtension_def ct known_strings_contain)
  from meaning exact [of ext] agrees webp show ?thesis
    unfolding chain by simp
qed


theorem getExtension_inference_order_witness:
  "map_of (headers webp_response) ''content-type'' = Some ''image/webp''
   \<and> \<not> includes_str ''image/webp'' ''image/png''
   \<and> \<not> includes_str ''image/webp'' ''image/jpeg''
   \<and> includes_str ''image/webp'' ''image/webp''
   \<and> path_extname sample_platform ''/img/hero.jpg'' = ''.jpg''
   \<and> getExtension sample_platform webp_response ''image'' = Inr ''.webp''
   \<and> map_of extension_table ''image/webp'' = Some ''.webp''
   \<and> map_of (headers untyped_module) ''content-type'' = None
   \<and> url_pathname sample_platform (url untyped_module) = Some ''/js/game.mjs''
   \<and> path_extname sample_platform ''/js/game.mjs'' = ''.mjs''
   \<and> getExtension sample_platform untyped_module ''script'' = Inr ''.mjs''
   \<and> spec_extension [] ''.mjs'' ''script'' = ''.mjs''
   \<and> map_of (headers untyped_asset) ''content-type'' = None
   \<and> url_pathname sample_platform (url untyped_asset) = Some ''/asset/42''
   \<and> path_extname sample_platform ''/asset/42'' = []
   \<and> getExtension sample_platform untyped_asset ''image'' = Inr ''.png''
   \<and> getExtension sample_platform untyped_asset ''script'' = Inr ''.js''"
proof -
  have webp_header: "map_of (headers webp_response) ''content-type'' = Some ''image/webp''"
    by (simp add: webp_response_def)
  have no_header: "map_of (headers untyped_module) ''content-type'' = None"
    "map_of (headers untyped_asset) ''content-type'' = None"
    by (simp_all add: untyped_module_def untyped_asset_def)
  have paths: "url_pathname sample_platform (url untyped_module) = Some ''/js/game.mjs''"
    "url_pathname sample_platform (url untyped_asset) = Some ''/asset/42''"
    by (simp_all add: untyped_module_def untyped_asset_def sample_platform_def sample_pathname_def)
  have exts: "path_extname sample_platform ''/img/hero.jpg'' = ''.jpg''"
    "path_extname sample_platform ''/js/game.mjs'' = ''.mjs''"
    "path_extname sample_platform ''/asset/42'' = []"
    by (simp_all add: sample_platform_def sample_extname_def)
  have webp_contains: "\<not> includes_str ''image/webp'' ''image/png''"
    "\<not> includes_str ''image/webp'' ''image/jpeg''" "includes_str ''image/webp'' ''image/webp''"
    by (simp_all add: known_strings_contain)
  have empty_contains: "\<not> includes_str [] ''image/png''" "\<not> includes_str [] ''image/jpeg''"
    "\<not> includes_str [] ''image/webp''" "\<not> includes_str [] ''image/gif''"
    "\<not> includes_str [] ''javascript''"
    by (simp_all add: includes_str_def)
  have table: "map_of extension_table ''image/webp'' = Some ''.webp''"
    by (simp add: extension_table_def)
  have none_known: "\<forall>known \<in> fst ` set extension_table. \<not> includes_str [] known"
    by (simp add: extension_table_def includes_str_def)
  note webp = getExtension_inference_order [where r = webp_response
      and contentType = "''image/webp''" and P = sample_platform and type = "''image''"]
  note module = getExtension_inference_order [where r = untyped_module
      and contentType = "[]" and P = sample_platform and type = "''script''"
      and pathname = "''/js/game.mjs''"]
  note asset_image = getExtension_inference_order [where r = untyped_asset
      and contentType = "[]" and P = sample_platform and type = "''image''"]
  note asset_script = getExtension_inference_order [where r = untyped_asset
      and contentType = "[]" and P = sample_platform and type = "''script''"]
  from webp webp_header webp_contains
  have a: "getExtension sample_platform webp_response ''image'' = Inr ''.webp''"
    by simp
  from module no_header(1) empty_contains paths(1) exts(2)
  have b: "getExtension sample_platform untyped_module ''script'' = Inr ''.mjs''"
    by simp
  from module no_header(1) paths(1) exts(2) none_known b
  have b': "spec_extension [] ''.mjs'' ''script'' = ''.mjs''"
    by simp
  from asset_image no_header(2) empty_contains paths(2) exts(3)
  have c: "getExtension sample_platform untyped_asset ''image'' = Inr ''.png''"
    by simp
  from asset_script no_header(2) empty_contains paths(2) exts(3)
  have d: "getExtension sample_platform untyped_asset ''script'' = Inr ''.js''"
    by simp
  from webp_header webp_contains exts a table no_header paths b b' c d show ?thesis
    by simp
qed

text \<open>
  C3 as stated fails for a content type that contains a known string without being one:
  \<open>text/javascript; charset=utf-8\<close> matches no known content-type string exactly, so the
  stated order gives the extension of the URL's path, \<open>.php\<close>; \<open>getExtension\<close>
  returns \<open>.js\<close>.
\<close>

theorem content_type_with_parameters:
  "map_of (headers loader_js) ''content-type'' = Some ''text/javascript; charset=utf-8''
   \<and> map_of extension_table ''text/javascript; charset=utf-8'' = None
   \<and> url_pathname sample_platform (url loader_js) = Some ''/js/loader.php''
   \<and> path_extname sample_platform ''/js/loader.php'' = ''.php''
   \<and> spec_extension ''text/javascript; charset=utf-8'' ''.php'' ''script'' = ''.php''
   \<and> getExtension sample_platform loader_js ''script'' = Inr ''.js''"
proof -
  have header: "map_of (headers loader_js) ''content-type'' = Some ''text/javascript; charset=utf-8''"
    by (simp add: loader_js_def)
  have unknown: "map_of extension_table ''text/javascript; charset=utf-8'' = None"
    by (simp add: extension_table_def)
  have path: "url_pathname sample_platform (url loader_js) = Some ''/js/loader.php''"
    by (simp add: loader_js_def sample_platform_def sample_pathname_def)
  have ext: "path_extname sample_platform ''/js/loader.php'' = ''.php''"
    by (simp add: sample_platform_def sample_extname_def)
  have spec: "spec_extension ''text/javascript; charset=utf-8'' ''.php'' ''script'' = ''.php''"
    by (simp add: spec_extension_def unknown)
  have code: "getExtension sample_platform loader_js ''script'' = Inr ''.js''"
    by (simp add: getExtension_def contentType_of_def loader_js_def includes_str_def
        sublist_Cons_right)
  from header unknown path ext spec code show ?thesis by simp
qed

section \<open>What each handler does\<close>

lemma start_fields [simp]:
  "fs (start files) = files" "assetMap (start files) = Map.empty"
  "httpLogStream (start files) = []" "wsLogStream (start files) = []"
  "console (start files) = []" "io_trace (start files) = []" "lastHash (start files) = []"
  by (simp_all add: start_def)

lemma saveFile_body_fails:
  "body r = None \<Longrightarrow>
   saveFile P w r type dir st =
     st\<lparr>io_trace := io_trace st @ [BodyRead (url r)],
        console := console st @ [FailedToSave type (url r) BodyError]\<rparr>"
  by (simp add: saveFile_def trace_def console_write_def)

lemma saveFile_extension_fails:
  "body r = Some b \<Longrightarrow> getExtension P r type = Inl e \<Longrightarrow>
   saveFile P w r type dir st =
     st\<lparr>io_trace := io_trace st @ [BodyRead (url r)],
        console := console st @ [FailedToSave type (url r) e]\<rparr>"
  by (simp add: saveFile_def trace_def console_write_def)

lemma saveFile_exists:
  "body r = Some b \<Longrightarrow> getExtension P r type = Inr ext \<Longrightarrow>
   fs st (path_join dir (md5_hex P b @ ext)) = Some existing \<Longrightarrow>
   saveFile P w r type dir st =
     st\<lparr>io_trace := io_trace st @ [BodyRead (url r)],
        assetMap := (assetMap st)(url r \<mapsto> md5_hex P b @ ext)\<rparr>"
  by (simp add: saveFile_def trace_def console_write_def Let_def)

lemma saveFile_write_fails:
  "body r = Some b \<Longrightarrow> getExtension P r type = Inr ext \<Longrightarrow>
   fs st (path_join dir (md5_hex P b @ ext)) = None \<Longrightarrow>
   saveFile P Throws r type dir st =
     st\<lparr>io_trace := io_trace st @ [BodyRead (url r), FileWrite (path_join dir (md5_hex P b @ ext))],
        console := console st @ [FailedToSave type (url r) IOError]\<rparr>"
  by (simp add: saveFile_def trace_def console_write_def Let_def)

lemma saveFile_written:
  "body r = Some b \<Longrightarrow> getExtension P r type = Inr ext \<Longrightarrow>
   fs st (path_join dir (md5_hex P b @ ext)) = None \<Longrightarrow>
   saveFile P Succeeds r type dir st =
     st\<lparr>io_trace := io_trace st @ [BodyRead (url r), FileWrite (path_join dir (md5_hex P b @ ext))],
        fs := (fs st)(path_join dir (md5_hex P b @ ext) \<mapsto> b),
        console := console st @ [Saved type (url r) (md5_hex P b @ ext)],
        assetMap := (assetMap st)(url r \<mapsto> md5_hex P b @ ext)\<rparr>"
  by (simp add: saveFile_def trace_def console_write_def Let_def)

lemma on_response_tracked:
  "ok r \<Longrightarrow>
   (resourceType r = ''image'' \<and> dir = TEXTURES_DIR)
     \<or> (resourceType r = ''script'' \<and> dir = SCRIPTS_DIR) \<Longrightarrow>
   on_response P now w r st =
     saveFile P w r (resourceType r) dir (logToStream HttpLog (response_entry now r) st)"
  by (auto simp: on_response_def response_entry_def Let_def)

lemma on_response_untracked:
  "\<not> (ok r \<and> resourceType r \<in> {''image'', ''script''}) \<Longrightarrow>
   on_response P now w r st = logToStream HttpLog (response_entry now r) st"
  by (auto simp: on_response_def response_entry_def Let_def)

section \<open>Content-hash deduplication\<close>

lemma saveFile_keeps_files: "dom (fs st) \<subseteq> dom (fs (saveFile P w r type dir st))"
  by (auto simp: saveFile_def trace_def console_write_def Let_def
      split: option.splits sum.splits io_outcome.splits)

lemma saveSnapshot_keeps_files: "dom (fs st) \<subseteq> dom (fs (saveSnapshot P now w j st))"
  by (auto simp: saveSnapshot_def trace_def console_write_def Let_def split: io_outcome.splits)

lemma on_response_keeps_files: "dom (fs st) \<subseteq> dom (fs (on_response P now w r st))"
proof -
  have "dom (fs st) \<subseteq> dom (fs (saveFile P w r type dir (logToStream HttpLog e st)))"
    for type dir e
    using saveFile_keeps_files [of "logToStream HttpLog e st" P w r type dir]
    by (simp add: logToStream_def)
  then show ?thesis
    by (simp add: on_response_def Let_def logToStream_def)
qed

lemma on_tick_keeps_files: "dom (fs st) \<subseteq> dom (fs (on_tick P now w d st))"
proof (cases "sampler_cycle P d (lastHash st)")
  case (Pair h forwarded)
  then show ?thesis
    using saveSnapshot_keeps_files [of "st\<lparr>lastHash := h\<rparr>" P now w]
    by (cases forwarded) (simp_all add: on_tick_def)
qed

lemma handle_keeps_files: "dom (fs st) \<subseteq> dom (fs (handle P ev st))"
  by (cases ev)
     (simp_all add: on_request_def on_websocket_def on_framesent_def on_framereceived_def
        logToStream_def console_write_def on_response_keeps_files on_tick_keeps_files)

lemma run_keeps_files: "dom (fs st) \<subseteq> dom (fs (run P es st))"
  unfolding run_def
proof (induction es arbitrary: st)
  case Nil
  show ?case by simp
next
  case (Cons ev es)
  have "dom (fs st) \<subseteq> dom (fs (handle P ev st))" by (rule handle_keeps_files)
  also have "\<dots> \<subseteq> dom (fs (fold (handle P) es (handle P ev st)))" by (rule Cons.IH)
  finally show ?case by simp
qed

lemma logToStream_fields [simp]:
  "fs (logToStream s e st) = fs st"
  "assetMap (logToStream s e st) = assetMap st"
  "io_trace (logToStream s e st) = io_trace st"
  "console (logToStream s e st) = console st"
  "lastHash (logToStream s e st) = lastHash st"
  by (cases s; simp add: logToStream_def)+

text \<open>
  C1, as amended. Two tracked successful responses with identical body bytes and the same
  inferred extension, in one category, share the path \<open>{dir}/{md5}{ext}\<close>, and each
  changes at most that one file. Once the file exists (it was there before, or the
  first write succeeded) it stays, whatever is handled in between, and the second
  response skips the write and changes no file, also when the two URLs differ. Identical
  bytes with different inferred extensions are two paths and two files.
\<close>

theorem content_hash_dedup:
  assumes tracked: "ok r1" "ok r2"
      "(resourceType r1 = ''image'' \<and> resourceType r2 = ''image'' \<and> type = ''image''
          \<and> dir = TEXTURES_DIR)
       \<or> (resourceType r1 = ''script'' \<and> resourceType r2 = ''script'' \<and> type = ''script''
          \<and> dir = SCRIPTS_DIR)"
    and same_bytes: "body r1 = Some b" "body r2 = Some b"
    and same_ext: "getExtension P r1 type = Inr ext" "getExtension P r2 type = Inr ext"
    and p: "p = path_join dir (md5_hex P b @ ext)"
    and st1: "st1 = handle P (ResponseEvent n1 w1 r1) st"
    and st2: "st2 = run P es st1"
    and st3: "st3 = handle P (ResponseEvent n2 w2 r2) st2"
  shows "(fs st1 = fs st \<or> fs st1 = (fs st)(p \<mapsto> b))
     \<and> (fs st3 = fs st2 \<or> fs st3 = (fs st2)(p \<mapsto> b))
     \<and> (p \<in> dom (fs st) \<or> w1 = Succeeds \<longrightarrow>
           p \<in> dom (fs st1) \<and> p \<in> dom (fs st2)
           \<and> fs st3 = fs st2 \<and> io_trace st3 = io_trace st2 @ [BodyRead (url r2)])"
proof -
  from tracked have t1: "resourceType r1 = type" and t2: "resourceType r2 = type" by auto
  from tracked have d1: "(resourceType r1 = ''image'' \<and> dir = TEXTURES_DIR)
     \<or> (resourceType r1 = ''script'' \<and> dir = SCRIPTS_DIR)" by auto
  from tracked have d2: "(resourceType r2 = ''image'' \<and> dir = TEXTURES_DIR)
     \<or> (resourceType r2 = ''script'' \<and> dir = SCRIPTS_DIR)" by auto
  have one_file: "(fs s' = fs s \<or> fs s' = (fs s)(p \<mapsto> b))
      \<and> (p \<in> dom (fs s) \<longrightarrow> fs s' = fs s \<and> io_trace s' = io_trace s @ [BodyRead (url r)])
      \<and> (p \<in> dom (fs s) \<or> w = Succeeds \<longrightarrow> p \<in> dom (fs s'))"
    if r: "ok r" "(resourceType r = ''image'' \<and> dir = TEXTURES_DIR)
        \<or> (resourceType r = ''script'' \<and> dir = SCRIPTS_DIR)" "resourceType r = type"
      "body r = Some b" "getExtension P r type = Inr ext"
      and s': "s' = handle P (ResponseEvent n w r) s" for r s s' n w
  proof -
    let ?l = "logToStream HttpLog (response_entry n r) s"
    have eq: "s' = saveFile P w r type dir ?l"
      using on_response_tracked [OF r(1,2)] r(3) s' by simp
    show ?thesis
    proof (cases "fs s p")
      case (Some existing)
      then have "fs ?l (path_join dir (md5_hex P b @ ext)) = Some existing" using p by simp
      from saveFile_exists [OF r(4,5) this] eq Some show ?thesis by (simp add: domIff)
    next
      case None
      then have absent: "fs ?l (path_join dir (md5_hex P b @ ext)) = None" using p by simp
      show ?thesis
      proof (cases w)
        case Succeeds
        with saveFile_written [OF r(4,5) absent] eq None show ?thesis
          using p by (simp add: domIff)
      next
        case Throws
        with saveFile_write_fails [OF r(4,5) absent] eq None show ?thesis
          by (simp add: domIff)
      qed
    qed
  qed
  note first = one_file [OF tracked(1) d1 t1 same_bytes(1) same_ext(1) st1]
  note second = one_file [OF tracked(2) d2 t2 same_bytes(2) same_ext(2) st3]
  have kept: "p \<in> dom (fs st2)" if "p \<in> dom (fs st1)"
    using that run_keeps_files [of st1 P es] st2 by blast
  from first second kept show ?thesis by blast
qed

lemma sample_digest_123: "md5_hex sample_platform [1, 2, 3] = ''32100000000000000000000000000000''"
  by (simp add: sample_platform_def sample_digest_def)

lemma hero_png_extension: "getExtension sample_platform hero_png ''image'' = Inr ''.png''"
  by (simp add: getExtension_def contentType_of_def hero_png_def includes_str_def)

lemma hero_copy_png_extension: "getExtension sample_platform hero_copy_png ''image'' = Inr ''.png''"
  by (simp add: getExtension_def contentType_of_def hero_copy_png_def includes_str_def)

lemma hero_jpeg_extension: "getExtension sample_platform hero_jpeg ''image'' = Inr ''.jpg''"
  by (simp add: getExtension_def contentType_of_def hero_jpeg_def includes_str_def sublist_Cons_right)

lemma hero_png_path_eq:
  "hero_png_path = path_join TEXTURES_DIR (md5_hex sample_platform [1, 2, 3] @ ''.png'')"
  by (simp add: sample_digest_123 hero_png_path_def path_join_def TEXTURES_DIR_def OUTPUT_DIR_def)

lemma hero_jpeg_path_eq:
  "hero_jpeg_path = path_join TEXTURES_DIR (md5_hex sample_platform [1, 2, 3] @ ''.jpg'')"
  by (simp add: sample_digest_123 hero_jpeg_path_def path_join_def TEXTURES_DIR_def OUTPUT_DIR_def)

theorem content_hash_dedup_witness:
  "ok hero_png \<and> ok hero_copy_png
   \<and> resourceType hero_png = ''image'' \<and> resourceType hero_copy_png = ''image''
   \<and> body hero_png = Some [1, 2, 3] \<and> body hero_copy_png = Some [1, 2, 3]
   \<and> url hero_png \<noteq> url hero_copy_png
   \<and> getExtension sample_platform hero_png ''image'' = Inr ''.png''
   \<and> getExtension sample_platform hero_copy_png ''image'' = Inr ''.png''
   \<and> hero_png_path \<notin> dom (fs (start Map.empty))
   \<and> fs (handle sample_platform (ResponseEvent 1000 Succeeds hero_png) (start Map.empty))
       = (fs (start Map.empty))(hero_png_path \<mapsto> [1, 2, 3])
   \<and> fs (handle sample_platform (ResponseEvent 2000 Succeeds hero_copy_png)
           (run sample_platform [ping_frame]
              (handle sample_platform (ResponseEvent 1000 Succeeds hero_png) (start Map.empty))))
       = fs (run sample_platform [ping_frame]
              (handle sample_platform (ResponseEvent 1000 Succeeds hero_png) (start Map.empty)))"
proof -
  have hyps: "ok hero_png" "ok hero_copy_png"
    "resourceType hero_png = ''image''" "resourceType hero_copy_png = ''image''"
    "body hero_png = Some [1, 2, 3]" "body hero_copy_png = Some [1, 2, 3]"
    "url hero_png \<noteq> url hero_copy_png"
    by (simp_all add: hero_png_def hero_copy_png_def)
  have fresh: "hero_png_path \<notin> dom (fs (start Map.empty))"
    by (simp add: start_def)
  from content_hash_dedup [where ?r1.0 = hero_png and ?r2.0 = hero_copy_png
      and type = "''image''" and dir = TEXTURES_DIR and b = "[1, 2, 3]"
      and P = sample_platform and ext = "''.png''" and p = hero_png_path
      and ?n1.0 = 1000 and ?w1.0 = Succeeds and st = "start Map.empty" and es = "[ping_frame]"
      and ?n2.0 = 2000 and ?w2.0 = Succeeds,
      OF hyps(1,2) _ hyps(5,6) hero_png_extension hero_copy_png_extension
      hero_png_path_eq refl refl refl]
    hyps fresh hero_png_extension hero_copy_png_extension
  show ?thesis by auto
qed

text \<open>
  C1 as stated fails: the same bytes served once as \<open>image/png\<close> and once as
  \<open>image/jpeg\<close> are written twice, under the two extensions.
\<close>

theorem identical_bytes_two_files:
  "body hero_png = body hero_jpeg
   \<and> ok hero_png \<and> ok hero_jpeg
   \<and> resourceType hero_png = ''image'' \<and> resourceType hero_jpeg = ''image''
   \<and> hero_png_path \<noteq> hero_jpeg_path
   \<and> fs (run sample_platform
            [ResponseEvent 1000 Succeeds hero_png, ResponseEvent 2000 Succeeds hero_jpeg]
            (start Map.empty))
       = [hero_png_path \<mapsto> [1, 2, 3], hero_jpeg_path \<mapsto> [1, 2, 3]]"
proof -
  have hyps: "body hero_png = Some [1, 2, 3]" "body hero_jpeg = Some [1, 2, 3]"
    "ok hero_png" "ok hero_jpeg"
    "resourceType hero_png = ''image''" "resourceType hero_jpeg = ''image''"
    by (simp_all add: hero_png_def hero_jpeg_def)
  have differ: "hero_png_path \<noteq> hero_jpeg_path"
    by (simp add: hero_png_path_def hero_jpeg_path_def)
  let ?st1 = "on_response sample_platform 1000 Succeeds hero_png (start Map.empty)"
  have "?st1 = saveFile sample_platform Succeeds hero_png ''image'' TEXTURES_DIR
      (logToStream HttpLog (response_entry 1000 hero_png) (start Map.empty))"
    using on_response_tracked [OF hyps(3), where dir = TEXTURES_DIR] hyps(5) by simp
  then have fs1: "fs ?st1 = [hero_png_path \<mapsto> [1, 2, 3]]"
    using saveFile_written [OF hyps(1) hero_png_extension, where dir = TEXTURES_DIR
        and st = "logToStream HttpLog (response_entry 1000 hero_png) (start Map.empty)"]
    by (simp add: hero_png_path_eq [symmetric] start_def)
  let ?st2 = "on_response sample_platform 2000 Succeeds hero_jpeg ?st1"
  have "?st2 = saveFile sample_platform Succeeds hero_jpeg ''image'' TEXTURES_DIR
      (logToStream HttpLog (response_entry 2000 hero_jpeg) ?st1)"
    using on_response_tracked [OF hyps(4), where dir = TEXTURES_DIR] hyps(6) by simp
  then have "fs ?st2 = [hero_png_path \<mapsto> [1, 2, 3], hero_jpeg_path \<mapsto> [1, 2, 3]]"
    using saveFile_written [OF hyps(2) hero_jpeg_extension, where dir = TEXTURES_DIR
        and st = "logToStream HttpLog (response_entry 2000 hero_jpeg) ?st1"] fs1 differ
    by (simp add: hero_jpeg_path_eq [symmetric])
  with hyps differ show ?thesis by (simp add: run_def)
qed

section \<open>Inclusion and the asset map\<close>

lemma saveFile_other_fields [simp]:
  "httpLogStream (saveFile P w r type dir st) = httpLogStream st"
  "wsLogStream (saveFile P w r type dir st) = wsLogStream st"
  "lastHash (saveFile P w r type dir st) = lastHash st"
  by (simp_all add: saveFile_def trace_def console_write_def Let_def
      split: option.splits sum.splits io_outcome.splits)

lemma saveFile_trace:
  "\<exists>rest. io_trace (saveFile P w r type dir st) = io_trace st @ BodyRead (url r) # rest"
  by (simp add: saveFile_def trace_def console_write_def Let_def
      split: option.splits sum.splits io_outcome.splits)

text \<open>
  C4, as amended. Every response is logged. The handler hands it to \<open>saveFile\<close> (the
  body is read) exactly when \<open>response.ok()\<close> holds and the resource type is \<open>image\<close>
  or \<open>script\<close>. What the attempt does to the files is then fixed case by case. The body
  cannot be read, or the extension cannot be inferred: no write is issued, and files and
  asset map stay as they were. A file \<open>{dir}/{md5}{ext}\<close> exists: no write is issued and
  the files stay as they were. No such file exists: one write to that path is issued; when
  it succeeds the files are the old ones with the body stored at that path, when it throws
  files and asset map stay as they were. A response failing either condition changes no
  file, no asset-map entry and issues no I/O.
\<close>

theorem inclusion_predicate:
  assumes st': "st' = handle P (ResponseEvent now w r) st"
  shows "httpLogStream st' = httpLogStream st @ [response_entry now r]
     \<and> (io_trace st' \<noteq> io_trace st \<longleftrightarrow> ok r \<and> resourceType r \<in> {''image'', ''script''})
     \<and> (ok r \<and> resourceType r \<in> {''image'', ''script''} \<longrightarrow>
          (\<exists>rest. io_trace st' = io_trace st @ BodyRead (url r) # rest)
          \<and> (body r = None \<longrightarrow>
                fs st' = fs st \<and> assetMap st' = assetMap st
                \<and> io_trace st' = io_trace st @ [BodyRead (url r)])
          \<and> (\<forall>b e. body r = Some b \<and> getExtension P r (resourceType r) = Inl e \<longrightarrow>
                fs st' = fs st \<and> assetMap st' = assetMap st
                \<and> io_trace st' = io_trace st @ [BodyRead (url r)])
          \<and> (\<forall>b ext p. body r = Some b \<and> getExtension P r (resourceType r) = Inr ext
                 \<and> p = path_join (if resourceType r = ''image'' then TEXTURES_DIR
                                   else SCRIPTS_DIR) (md5_hex P b @ ext)
               \<longrightarrow> (p \<in> dom (fs st) \<longrightarrow>
                      fs st' = fs st \<and> io_trace st' = io_trace st @ [BodyRead (url r)])
                 \<and> (p \<notin> dom (fs st) \<longrightarrow>
                      io_trace st' = io_trace st @ [BodyRead (url r), FileWrite p])
                 \<and> (p \<notin> dom (fs st) \<and> w = Succeeds \<longrightarrow> fs st' = (fs st)(p \<mapsto> b))
                 \<and> (p \<notin> dom (fs st) \<and> w = Throws \<longrightarrow>
                      fs st' = fs st \<and> assetMap st' = assetMap st)
                 \<and> (w = Succeeds \<longrightarrow>
                      p \<in> dom (fs st') \<and> (p \<notin> dom (fs st) \<longrightarrow> fs st' p = Some b))))
     \<and> (\<not> (ok r \<and> resourceType r \<in> {''image'', ''script''}) \<longrightarrow>
          fs st' = fs st \<and> assetMap st' = assetMap st \<and> io_trace st' = io_trace st)"
proof (cases "ok r \<and> resourceType r \<in> {''image'', ''script''}")
  case False
  then have "st' = logToStream HttpLog (response_entry now r) st"
    using st' on_response_untracked by simp
  with False show ?thesis by (simp add: logToStream_def)
next
  case True
  define dir where "dir = (if resourceType r = ''image'' then TEXTURES_DIR else SCRIPTS_DIR)"
  let ?l = "logToStream HttpLog (response_entry now r) st"
  have l: "fs ?l = fs st" "assetMap ?l = assetMap st" "io_trace ?l = io_trace st"
    by (simp_all add: logToStream_def)
  from True have d: "(resourceType r = ''image'' \<and> dir = TEXTURES_DIR)
     \<or> (resourceType r = ''script'' \<and> dir = SCRIPTS_DIR)"
    by (auto simp: dir_def)
  from True have eq: "st' = saveFile P w r (resourceType r) dir ?l"
    using st' on_response_tracked [OF _ d] by simp
  have log: "httpLogStream st' = httpLogStream st @ [response_entry now r]"
    by (simp add: eq) (simp add: logToStream_def)
  obtain rest where tr: "io_trace st' = io_trace st @ BodyRead (url r) # rest"
    using saveFile_trace [of P w r "resourceType r" dir ?l] eq by auto
  have unread: "fs st' = fs st \<and> assetMap st' = assetMap st
      \<and> io_trace st' = io_trace st @ [BodyRead (url r)]" if "body r = None"
    using saveFile_body_fails [OF that, of P w "resourceType r" dir ?l] eq l by simp
  have untyped: "fs st' = fs st \<and> assetMap st' = assetMap st
      \<and> io_trace st' = io_trace st @ [BodyRead (url r)]"
    if "body r = Some b" "getExtension P r (resourceType r) = Inl e" for b e
    using saveFile_extension_fails [OF that, of w dir ?l] eq l by simp
  have saved: "(p \<in> dom (fs st) \<longrightarrow>
         fs st' = fs st \<and> io_trace st' = io_trace st @ [BodyRead (url r)])
      \<and> (p \<notin> dom (fs st) \<longrightarrow> io_trace st' = io_trace st @ [BodyRead (url r), FileWrite p])
      \<and> (p \<notin> dom (fs st) \<and> w = Succeeds \<longrightarrow> fs st' = (fs st)(p \<mapsto> b))
      \<and> (p \<notin> dom (fs st) \<and> w = Throws \<longrightarrow> fs st' = fs st \<and> assetMap st' = assetMap st)
      \<and> (w = Succeeds \<longrightarrow> p \<in> dom (fs st') \<and> (p \<notin> dom (fs st) \<longrightarrow> fs st' p = Some b))"
    if b: "body r = Some b" and ext: "getExtension P r (resourceType r) = Inr ext"
      and p: "p = path_join dir (md5_hex P b @ ext)" for b ext p
  proof (cases "fs st p")
    case None
    then have absent: "fs ?l (path_join dir (md5_hex P b @ ext)) = None" using p by simp
    show ?thesis
    proof (cases w)
      case Succeeds
      from saveFile_written [OF b ext absent] eq Succeeds None p l show ?thesis
        by (simp add: domIff)
    next
      case Throws
      from saveFile_write_fails [OF b ext absent] eq Throws None p l show ?thesis
        by (simp add: domIff)
    qed
  next
    case (Some existing)
    then have "fs ?l (path_join dir (md5_hex P b @ ext)) = Some existing" using p by simp
    from saveFile_exists [OF b ext this, of w] eq Some l show ?thesis by (simp add: domIff)
  qed
  from True log tr unread untyped saved show ?thesis unfolding dir_def by auto
qed


lemma saveFile_assetMap_other:
  "url r \<noteq> u \<Longrightarrow> assetMap (saveFile P w r type dir st) u = assetMap st u"
  by (simp add: saveFile_def trace_def console_write_def Let_def
      split: option.splits sum.splits io_outcome.splits)

lemma saveSnapshot_other_fields [simp]:
  "assetMap (saveSnapshot P now w j st) = assetMap st"
  "httpLogStream (saveSnapshot P now w j st) = httpLogStream st"
  "wsLogStream (saveSnapshot P now w j st) = wsLogStream st"
  "lastHash (saveSnapshot P now w j st) = lastHash st"
  by (simp_all add: saveSnapshot_def trace_def console_write_def Let_def split: io_outcome.splits)

lemma on_tick_assetMap [simp]: "assetMap (on_tick P now w d st) = assetMap st"
  by (simp add: on_tick_def split: prod.splits option.splits)

lemma handle_assetMap_other:
  "response_url ev \<noteq> Some u \<Longrightarrow> assetMap (handle P ev st) u = assetMap st u"
  by (cases ev)
     (simp_all add: on_request_def on_websocket_def on_framesent_def on_framereceived_def
        console_write_def on_response_def Let_def saveFile_assetMap_other)

lemma run_assetMap_other:
  "Some u \<notin> response_url ` set es \<Longrightarrow> assetMap (run P es st) u = assetMap st u"
  unfolding run_def
proof (induction es arbitrary: st)
  case Nil
  show ?case by simp
next
  case (Cons ev es)
  then have "response_url ev \<noteq> Some u" by auto
  then have "assetMap (handle P ev st) u = assetMap st u" by (rule handle_assetMap_other)
  with Cons show ?case by simp
qed

lemma writes_to_append:
  "writes_to path (st\<lparr>io_trace := io_trace st @ ops\<rparr>)
     = writes_to path st + length (filter (\<lambda>op. op = FileWrite path) ops)"
  by (simp add: writes_to_def)

lemma asset_paths_not_map_file:
  "path_join TEXTURES_DIR name \<noteq> ASSETS_MAP_FILE"
  "path_join SCRIPTS_DIR name \<noteq> ASSETS_MAP_FILE"
  "path_join SNAPSHOTS_DIR name \<noteq> ASSETS_MAP_FILE"
  by (simp_all add: path_join_def TEXTURES_DIR_def SCRIPTS_DIR_def SNAPSHOTS_DIR_def
      ASSETS_MAP_FILE_def OUTPUT_DIR_def)

lemma saveFile_writes_to:
  "(\<And>name. path_join dir name \<noteq> q) \<Longrightarrow>
   writes_to q (saveFile P w r type dir st) = writes_to q st"
  by (simp add: saveFile_def trace_def console_write_def Let_def writes_to_def
      split: option.splits sum.splits io_outcome.splits)

lemma saveSnapshot_writes_to:
  "(\<And>name. path_join SNAPSHOTS_DIR name \<noteq> q) \<Longrightarrow>
   writes_to q (saveSnapshot P now w j st) = writes_to q st"
  by (simp add: saveSnapshot_def trace_def console_write_def Let_def writes_to_def
      split: io_outcome.splits)

lemma handle_writes_to_map_file:
  "writes_to ASSETS_MAP_FILE (handle P ev st) = writes_to ASSETS_MAP_FILE st"
proof (cases ev)
  case (ResponseEvent now w r)
  have "writes_to ASSETS_MAP_FILE (saveFile P w r type dir s) = writes_to ASSETS_MAP_FILE s"
    if "dir = TEXTURES_DIR \<or> dir = SCRIPTS_DIR" for type dir s
    using that saveFile_writes_to [of dir ASSETS_MAP_FILE] asset_paths_not_map_file by blast
  then show ?thesis
    using ResponseEvent by (simp add: on_response_def Let_def) (simp add: logToStream_def writes_to_def)
next
  case (SamplerTick now w d)
  then show ?thesis
    using saveSnapshot_writes_to [of ASSETS_MAP_FILE] asset_paths_not_map_file
    by (simp add: on_tick_def split: prod.splits option.splits) (simp add: writes_to_def)
qed (simp_all add: on_request_def on_websocket_def on_framesent_def on_framereceived_def
       console_write_def logToStream_def writes_to_def)

lemma run_writes_to_map_file:
  "writes_to ASSETS_MAP_FILE (run P es st) = writes_to ASSETS_MAP_FILE st"
  unfolding run_def
  by (induction es arbitrary: st) (simp_all add: handle_writes_to_map_file)

lemma session_writes_map_file_once:
  "writes_to ASSETS_MAP_FILE (fst (session P files es w)) = 1"
proof -
  have "writes_to ASSETS_MAP_FILE (fst (finish P w st)) = writes_to ASSETS_MAP_FILE st + 1" for st
    by (cases w) (simp_all add: finish_def trace_def console_write_def writes_to_def Let_def)
  then show ?thesis
    by (simp add: session_def run_writes_to_map_file) (simp add: start_def writes_to_def)
qed

lemma finish_overwrites:
  "fs (fst (finish P Succeeds st)) ASSETS_MAP_FILE = Some (utf8 P (json_of_map P (assetMap st)))"
  by (simp add: finish_def trace_def console_write_def Let_def)

text \<open>
  C6, as amended. When the capture of a response succeeds (the file is already there, or
  the write succeeds), \<open>url \<mapsto> filename\<close> is recorded, also when no file was
  written. A second response with the same bytes and the same inferred extension is
  recorded under the same filename, whatever its URL, and the first entry is still there
  if no response for the first URL came in between. In a session the asset map file is
  written once, at the end, and then holds the serialized map whatever it held before.
\<close>

theorem asset_map_recording:
  assumes tracked: "ok r1" "ok r2"
      "(resourceType r1 = ''image'' \<and> resourceType r2 = ''image'' \<and> type = ''image''
          \<and> dir = TEXTURES_DIR)
       \<or> (resourceType r1 = ''script'' \<and> resourceType r2 = ''script'' \<and> type = ''script''
          \<and> dir = SCRIPTS_DIR)"
    and same_bytes: "body r1 = Some b" "body r2 = Some b"
    and same_ext: "getExtension P r1 type = Inr ext" "getExtension P r2 type = Inr ext"
    and filename: "filename = md5_hex P b @ ext"
    and p: "p = path_join dir filename"
    and succeeds: "p \<in> dom (fs st) \<or> w1 = Succeeds"
    and st1: "st1 = handle P (ResponseEvent n1 w1 r1) st"
    and st2: "st2 = run P es st1"
    and no_other: "Some (url r1) \<notin> response_url ` set es"
    and st3: "st3 = handle P (ResponseEvent n2 w2 r2) st2"
  shows "assetMap st1 = (assetMap st)(url r1 \<mapsto> filename)
     \<and> (p \<in> dom (fs st) \<longrightarrow> fs st1 = fs st \<and> writes_to p st1 = writes_to p st)
     \<and> assetMap st3 (url r1) = Some filename \<and> assetMap st3 (url r2) = Some filename
     \<and> writes_to ASSETS_MAP_FILE (fst (session P files events w)) = 1
     \<and> fs (fst (finish P Succeeds s)) ASSETS_MAP_FILE
          = Some (utf8 P (json_of_map P (assetMap s)))"
proof -
  from tracked have t1: "resourceType r1 = type" and t2: "resourceType r2 = type" by auto
  from tracked have d1: "(resourceType r1 = ''image'' \<and> dir = TEXTURES_DIR)
     \<or> (resourceType r1 = ''script'' \<and> dir = SCRIPTS_DIR)" by auto
  from tracked have d2: "(resourceType r2 = ''image'' \<and> dir = TEXTURES_DIR)
     \<or> (resourceType r2 = ''script'' \<and> dir = SCRIPTS_DIR)" by auto
  let ?l1 = "logToStream HttpLog (response_entry n1 r1) st"
  have s1: "st1 = saveFile P w1 r1 type dir ?l1"
    using on_response_tracked [OF tracked(1) d1] t1 st1 by simp
  have first: "assetMap st1 = (assetMap st)(url r1 \<mapsto> filename)
     \<and> (p \<in> dom (fs st) \<longrightarrow> fs st1 = fs st \<and> writes_to p st1 = writes_to p st)
     \<and> p \<in> dom (fs st1)"
  proof (cases "fs st p")
    case None
    then have absent: "fs ?l1 (path_join dir (md5_hex P b @ ext)) = None"
      using p filename by simp
    from None succeeds have "w1 = Succeeds" by (simp add: domIff)
    with saveFile_written [OF same_bytes(1) same_ext(1) absent] s1 None
    show ?thesis using p filename by (simp add: domIff)
  next
    case (Some existing)
    then have "fs ?l1 (path_join dir (md5_hex P b @ ext)) = Some existing"
      using p filename by simp
    from saveFile_exists [OF same_bytes(1) same_ext(1) this] s1 Some
    show ?thesis using filename by (simp add: domIff writes_to_def)
  qed
  then have "p \<in> dom (fs st2)" using run_keeps_files [of st1 P es] st2 by blast
  then obtain existing where ex: "fs st2 p = Some existing" by blast
  have kept: "assetMap st2 (url r1) = Some filename"
    using run_assetMap_other [OF no_other] st2 first by simp
  let ?l2 = "logToStream HttpLog (response_entry n2 r2) st2"
  have s3: "st3 = saveFile P w2 r2 type dir ?l2"
    using on_response_tracked [OF tracked(2) d2] t2 st3 by simp
  from ex have "fs ?l2 (path_join dir (md5_hex P b @ ext)) = Some existing"
    using p filename by simp
  from saveFile_exists [OF same_bytes(2) same_ext(2) this] s3
  have "assetMap st3 = (assetMap st2)(url r2 \<mapsto> filename)" using filename by simp
  with kept have "assetMap st3 (url r1) = Some filename \<and> assetMap st3 (url r2) = Some filename"
    by simp
  with first session_writes_map_file_once finish_overwrites show ?thesis by blast
qed

lemma sprite_a_extension: "getExtension sample_platform sprite_a ''image'' = Inr ''.png''"
  by (simp add: getExtension_def contentType_of_def sprite_a_def includes_str_def
      sublist_Cons_right sample_platform_def sample_pathname_def sample_extname_def)

lemma sprite_b_extension: "getExtension sample_platform sprite_b ''image'' = Inr ''.jpg''"
  by (simp add: getExtension_def contentType_of_def sprite_b_def includes_str_def
      sublist_Cons_right sample_platform_def sample_pathname_def sample_extname_def)

theorem inclusion_predicate_witness:
  "ok hero_png \<and> resourceType hero_png \<in> {''image'', ''script''}
   \<and> body hero_png = Some [1, 2, 3]
   \<and> getExtension sample_platform hero_png (resourceType hero_png) = Inr ''.png''
   \<and> hero_png_path \<notin> dom (fs (start Map.empty))
   \<and> fs (handle sample_platform (ResponseEvent 1000 Succeeds hero_png) (start Map.empty))
        = [hero_png_path \<mapsto> [1, 2, 3]]
   \<and> fs (handle sample_platform (ResponseEvent 1000 Throws hero_png) (start Map.empty))
        = Map.empty
   \<and> io_trace (handle sample_platform (ResponseEvent 1000 Throws hero_png) (start Map.empty))
        = [BodyRead (url hero_png), FileWrite hero_png_path]
   \<and> ok unreadable_png \<and> resourceType unreadable_png \<in> {''image'', ''script''}
   \<and> body unreadable_png = None
   \<and> fs (handle sample_platform (ResponseEvent 1500 Succeeds unreadable_png) (start Map.empty))
        = Map.empty
   \<and> \<not> (ok missing_png \<and> resourceType missing_png \<in> {''image'', ''script''})
   \<and> fs (handle sample_platform (ResponseEvent 2000 Succeeds missing_png) (start Map.empty))
        = fs (start Map.empty)
   \<and> httpLogStream
        (handle sample_platform (ResponseEvent 2000 Succeeds missing_png) (start Map.empty))
        = [response_entry 2000 missing_png]"
proof -
  have hyps: "ok hero_png" "resourceType hero_png = ''image''" "body hero_png = Some [1, 2, 3]"
    "\<not> ok missing_png"
    "ok unreadable_png" "resourceType unreadable_png = ''image''" "body unreadable_png = None"
    by (simp_all add: hero_png_def missing_png_def unreadable_png_def)
  have fresh: "hero_png_path \<notin> dom (fs (start Map.empty))"
    "httpLogStream (start Map.empty) = []" "fs (start Map.empty) = Map.empty"
    "io_trace (start Map.empty) = []"
    by (simp_all add: start_def)
  have ext: "getExtension sample_platform hero_png (resourceType hero_png) = Inr ''.png''"
    using hero_png_extension hyps(2) by simp
  have path: "hero_png_path = path_join (if resourceType hero_png = ''image'' then TEXTURES_DIR
      else SCRIPTS_DIR) (md5_hex sample_platform [1, 2, 3] @ ''.png'')"
    using hero_png_path_eq hyps(2) by simp
  note written = inclusion_predicate [OF refl, of sample_platform 1000 Succeeds hero_png
      "start Map.empty"]
  note failed = inclusion_predicate [OF refl, of sample_platform 1000 Throws hero_png
      "start Map.empty"]
  note unread = inclusion_predicate [OF refl, of sample_platform 1500 Succeeds unreadable_png
      "start Map.empty"]
  note untracked = inclusion_predicate [OF refl, of sample_platform 2000 Succeeds missing_png
      "start Map.empty"]
  from written hyps(1,2,3) ext path fresh(1)
  have "fs (handle sample_platform (ResponseEvent 1000 Succeeds hero_png) (start Map.empty))
        = (fs (start Map.empty))(hero_png_path \<mapsto> [1, 2, 3])"
    by blast
  then have a: "fs (handle sample_platform (ResponseEvent 1000 Succeeds hero_png)
        (start Map.empty)) = [hero_png_path \<mapsto> [1, 2, 3]]"
    by (simp add: fresh(3))
  from failed hyps(1,2,3) ext path fresh(1)
  have "fs (handle sample_platform (ResponseEvent 1000 Throws hero_png) (start Map.empty))
        = fs (start Map.empty)
     \<and> io_trace (handle sample_platform (ResponseEvent 1000 Throws hero_png) (start Map.empty))
        = io_trace (start Map.empty) @ [BodyRead (url hero_png), FileWrite hero_png_path]"
    by blast
  then have b: "fs (handle sample_platform (ResponseEvent 1000 Throws hero_png)
        (start Map.empty)) = Map.empty
     \<and> io_trace (handle sample_platform (ResponseEvent 1000 Throws hero_png) (start Map.empty))
        = [BodyRead (url hero_png), FileWrite hero_png_path]"
    by (simp add: fresh)
  from unread hyps(5,6,7)
  have c: "fs (handle sample_platform (ResponseEvent 1500 Succeeds unreadable_png)
        (start Map.empty)) = Map.empty"
    by (simp add: fresh(3))
  from untracked hyps(4) fresh(2)
  have d: "fs (handle sample_platform (ResponseEvent 2000 Succeeds missing_png) (start Map.empty))
        = fs (start Map.empty)
     \<and> httpLogStream
        (handle sample_platform (ResponseEvent 2000 Succeeds missing_png) (start Map.empty))
        = [response_entry 2000 missing_png]"
    by simp
  from a b c d hyps ext fresh(1) show ?thesis by simp
qed

text \<open>
  C4 as stated fails in the direction from the predicate to the file: a successful image
  response whose body cannot be read, and one whose file cannot be written, leave no
  file behind.
\<close>

theorem tracked_response_not_persisted:
  "ok unreadable_png \<and> resourceType unreadable_png = ''image''
   \<and> io_trace (handle sample_platform (ResponseEvent 1000 Succeeds unreadable_png)
        (start Map.empty)) = [BodyRead (url unreadable_png)]
   \<and> fs (handle sample_platform (ResponseEvent 1000 Succeeds unreadable_png) (start Map.empty))
        = Map.empty
   \<and> ok hero_png \<and> resourceType hero_png = ''image'' \<and> body hero_png = Some [1, 2, 3]
   \<and> io_trace (handle sample_platform (ResponseEvent 1000 Throws hero_png) (start Map.empty))
        = [BodyRead (url hero_png), FileWrite hero_png_path]
   \<and> fs (handle sample_platform (ResponseEvent 1000 Throws hero_png) (start Map.empty))
        = Map.empty"
proof -
  have unreadable: "ok unreadable_png" "resourceType unreadable_png = ''image''"
    "body unreadable_png = None"
    by (simp_all add: unreadable_png_def)
  have hero: "ok hero_png" "resourceType hero_png = ''image''" "body hero_png = Some [1, 2, 3]"
    by (simp_all add: hero_png_def)
  have "handle sample_platform (ResponseEvent 1000 Succeeds unreadable_png) (start Map.empty)
      = saveFile sample_platform Succeeds unreadable_png ''image'' TEXTURES_DIR
          (logToStream HttpLog (response_entry 1000 unreadable_png) (start Map.empty))"
    using on_response_tracked [OF unreadable(1), where dir = TEXTURES_DIR] unreadable(2) by simp
  then have a: "io_trace (handle sample_platform (ResponseEvent 1000 Succeeds unreadable_png)
        (start Map.empty)) = [BodyRead (url unreadable_png)]
     \<and> fs (handle sample_platform (ResponseEvent 1000 Succeeds unreadable_png) (start Map.empty))
        = Map.empty"
    by (simp add: saveFile_body_fails [OF unreadable(3)])
  have "handle sample_platform (ResponseEvent 1000 Throws hero_png) (start Map.empty)
      = saveFile sample_platform Throws hero_png ''image'' TEXTURES_DIR
          (logToStream HttpLog (response_entry 1000 hero_png) (start Map.empty))"
    using on_response_tracked [OF hero(1), where dir = TEXTURES_DIR] hero(2) by simp
  then have b: "io_trace (handle sample_platform (ResponseEvent 1000 Throws hero_png)
        (start Map.empty)) = [BodyRead (url hero_png), FileWrite hero_png_path]
     \<and> fs (handle sample_platform (ResponseEvent 1000 Throws hero_png) (start Map.empty))
        = Map.empty"
    using saveFile_write_fails [OF hero(3) hero_png_extension, where dir = TEXTURES_DIR
        and st = "logToStream HttpLog (response_entry 1000 hero_png) (start Map.empty)"]
    by (simp add: hero_png_path_eq)
  from a b unreadable hero show ?thesis by blast
qed

theorem asset_map_recording_witness:
  "ok hero_png \<and> ok hero_copy_png
   \<and> resourceType hero_png = ''image'' \<and> resourceType hero_copy_png = ''image''
   \<and> body hero_png = Some [1, 2, 3] \<and> body hero_copy_png = Some [1, 2, 3]
   \<and> getExtension sample_platform hero_png ''image'' = Inr ''.png''
   \<and> getExtension sample_platform hero_copy_png ''image'' = Inr ''.png''
   \<and> url hero_png \<noteq> url hero_copy_png
   \<and> Some (url hero_png) \<notin> response_url ` set [ping_frame]
   \<and> assetMap (handle sample_platform (ResponseEvent 2000 Throws hero_copy_png)
        (run sample_platform [ping_frame]
           (handle sample_platform (ResponseEvent 1000 Succeeds hero_png) (start Map.empty))))
        (url hero_png) = Some ''32100000000000000000000000000000.png''
   \<and> assetMap (handle sample_platform (ResponseEvent 2000 Throws hero_copy_png)
        (run sample_platform [ping_frame]
           (handle sample_platform (ResponseEvent 1000 Succeeds hero_png) (start Map.empty))))
        (url hero_copy_png) = Some ''32100000000000000000000000000000.png''"
proof -
  have hyps: "ok hero_png" "ok hero_copy_png"
    "resourceType hero_png = ''image''" "resourceType hero_copy_png = ''image''"
    "body hero_png = Some [1, 2, 3]" "body hero_copy_png = Some [1, 2, 3]"
    "url hero_png \<noteq> url hero_copy_png"
    "Some (url hero_png) \<notin> response_url ` set [ping_frame]"
    by (simp_all add: hero_png_def hero_copy_png_def ping_frame_def)
  have name: "''32100000000000000000000000000000.png''
      = md5_hex sample_platform [1, 2, 3] @ ''.png''"
    by (simp add: sample_digest_123)
  from asset_map_recording [where ?r1.0 = hero_png and ?r2.0 = hero_copy_png
      and type = "''image''" and dir = TEXTURES_DIR and b = "[1, 2, 3]"
      and P = sample_platform and ext = "''.png''"
      and filename = "''32100000000000000000000000000000.png''"
      and ?w1.0 = Succeeds and ?n1.0 = 1000 and st = "start Map.empty" and es = "[ping_frame]"
      and ?n2.0 = 2000 and ?w2.0 = Throws,
      OF hyps(1,2) _ hyps(5,6) hero_png_extension hero_copy_png_extension name refl _ refl refl
      hyps(8) refl]
    hyps hero_png_extension hero_copy_png_extension
  show ?thesis by simp
qed

text \<open>
  C6 as stated fails in its parenthesis: two URLs with the same bytes, hence the same
  digest, whose paths end in \<open>.png\<close> and \<open>.jpg\<close> (content-type not in the table) are
  recorded under two different filenames.
\<close>

theorem same_hash_two_filenames:
  "body sprite_a = body sprite_b
   \<and> ok sprite_a \<and> ok sprite_b
   \<and> resourceType sprite_a = ''image'' \<and> resourceType sprite_b = ''image''
   \<and> url sprite_a \<noteq> url sprite_b
   \<and> assetMap (run sample_platform
        [ResponseEvent 1000 Succeeds sprite_a, ResponseEvent 2000 Succeeds sprite_b]
        (start Map.empty))
      = [url sprite_a \<mapsto> sprite_a_name, url sprite_b \<mapsto> sprite_b_name]
   \<and> sprite_a_name \<noteq> sprite_b_name"
proof -
  have hyps: "body sprite_a = Some [1, 2, 3]" "body sprite_b = Some [1, 2, 3]"
    "ok sprite_a" "ok sprite_b"
    "resourceType sprite_a = ''image''" "resourceType sprite_b = ''image''"
    "url sprite_a \<noteq> url sprite_b"
    by (simp_all add: sprite_a_def sprite_b_def)
  have differ: "sprite_a_name \<noteq> sprite_b_name"
    "path_join TEXTURES_DIR (md5_hex sample_platform [1, 2, 3] @ ''.png'')
       \<noteq> path_join TEXTURES_DIR (md5_hex sample_platform [1, 2, 3] @ ''.jpg'')"
    by (simp_all add: sprite_a_name_def sprite_b_name_def path_join_def)
  have names: "md5_hex sample_platform [1, 2, 3] @ ''.png'' = sprite_a_name"
    "md5_hex sample_platform [1, 2, 3] @ ''.jpg'' = sprite_b_name"
    by (simp_all add: sample_digest_123 sprite_a_name_def sprite_b_name_def)
  let ?st1 = "on_response sample_platform 1000 Succeeds sprite_a (start Map.empty)"
  have "?st1 = saveFile sample_platform Succeeds sprite_a ''image'' TEXTURES_DIR
      (logToStream HttpLog (response_entry 1000 sprite_a) (start Map.empty))"
    using on_response_tracked [OF hyps(3), where dir = TEXTURES_DIR] hyps(5) by simp
  then have st1: "assetMap ?st1 = [url sprite_a \<mapsto> sprite_a_name]
      \<and> fs ?st1 = [path_join TEXTURES_DIR (md5_hex sample_platform [1, 2, 3] @ ''.png'')
            \<mapsto> [1, 2, 3]]"
    using saveFile_written [OF hyps(1) sprite_a_extension, where dir = TEXTURES_DIR
        and st = "logToStream HttpLog (response_entry 1000 sprite_a) (start Map.empty)"]
    by (simp add: names start_def)
  let ?st2 = "on_response sample_platform 2000 Succeeds sprite_b ?st1"
  have "?st2 = saveFile sample_platform Succeeds sprite_b ''image'' TEXTURES_DIR
      (logToStream HttpLog (response_entry 2000 sprite_b) ?st1)"
    using on_response_tracked [OF hyps(4), where dir = TEXTURES_DIR] hyps(6) by simp
  then have "assetMap ?st2 = [url sprite_a \<mapsto> sprite_a_name, url sprite_b \<mapsto> sprite_b_name]"
    using saveFile_written [OF hyps(2) sprite_b_extension, where dir = TEXTURES_DIR
        and st = "logToStream HttpLog (response_entry 2000 sprite_b) ?st1"] st1 differ(2)
    by (simp add: names)
  with hyps differ(1) show ?thesis by (simp add: run_def)
qed

section \<open>The snapshot sampler\<close>

lemma digits_nonempty: "digits n \<noteq> []"
  by (subst digits.simps) simp

lemma digit_char_in: "d < 10 \<Longrightarrow> ''0123456789'' ! d \<in> set ''0123456789''"
  by (rule nth_mem) simp

lemma digits_are_digits: "set (digits n) \<subseteq> set ''0123456789''"
proof (induction n rule: digits.induct)
  case (1 n)
  show ?case
  proof (cases "n < 10")
    case True
    then show ?thesis using digit_char_in [of n] by (subst digits.simps) simp
  next
    case False
    have "n mod 10 < 10" by simp
    then have "''0123456789'' ! (n mod 10) \<in> set ''0123456789''" by (rule digit_char_in)
    with False 1 show ?thesis by (subst digits.simps) simp
  qed
qed

lemma digit_char_inj:
  assumes "a < 10" "b < 10" "''0123456789'' ! a = ''0123456789'' ! b"
  shows "a = b"
proof -
  have "distinct ''0123456789''" by simp
  moreover have "a < length ''0123456789''" "b < length ''0123456789''" using assms by simp_all
  ultimately show ?thesis using assms(3) nth_eq_iff_index_eq by blast
qed

lemma digits_inj: "digits n = digits m \<Longrightarrow> n = m"
proof (induction n arbitrary: m rule: digits.induct)
  case (1 n)
  show ?case
  proof (cases "n < 10")
    case small_n: True
    show ?thesis
    proof (cases "m < 10")
      case True
      with small_n "1.prems" have "''0123456789'' ! n = ''0123456789'' ! m"
        by (simp add: digits.simps [of n] digits.simps [of m])
      with small_n True show ?thesis by (rule digit_char_inj)
    next
      case False
      then have "length (digits m) \<ge> 2"
        using digits_nonempty [of "m div 10"]
        by (subst digits.simps) (cases "digits (m div 10)"; simp)
      moreover have "length (digits n) = 1" using small_n by (subst digits.simps) simp
      ultimately show ?thesis using "1.prems" by simp
    qed
  next
    case big_n: False
    show ?thesis
    proof (cases "m < 10")
      case True
      have "length (digits n) \<ge> 2"
        using big_n digits_nonempty [of "n div 10"]
        by (subst digits.simps) (cases "digits (n div 10)"; simp)
      moreover have "length (digits m) = 1" using True by (subst digits.simps) simp
      ultimately show ?thesis using "1.prems" by simp
    next
      case False
      with big_n "1.prems"
      have "digits (n div 10) @ [''0123456789'' ! (n mod 10)]
            = digits (m div 10) @ [''0123456789'' ! (m mod 10)]"
        by (simp add: digits.simps [of n] digits.simps [of m])
      then have leading: "digits (n div 10) = digits (m div 10)"
        and final: "''0123456789'' ! (n mod 10) = ''0123456789'' ! (m mod 10)"
        by simp_all
      from "1.IH" [OF big_n leading] have "n div 10 = m div 10" .
      moreover have "n mod 10 = m mod 10"
        using final by (rule digit_char_inj [rotated 2]) simp_all
      ultimately have "10 * (n div 10) + n mod 10 = 10 * (m div 10) + m mod 10" by simp
      then show ?thesis by (simp only: mult_div_mod_eq)
    qed
  qed
qed

lemma toString_nonempty: "toString i \<noteq> []"
  by (simp add: toString_def digits_nonempty)

lemma js_nonempty: "js s = [] \<longleftrightarrow> s = []"
  by (simp add: js_def)

lemma takeWhile_digits:
  "takeWhile (\<lambda>c. c \<in> set ''0123456789'') (digits t @ CHR ''_'' # rest) = digits t"
proof -
  have "x \<in> set ''0123456789''" if "x \<in> set (digits t)" for x
    using that digits_are_digits [of t] by (rule subsetD [rotated])
  then have "takeWhile (\<lambda>c. c \<in> set ''0123456789'') (digits t @ CHR ''_'' # rest)
      = digits t @ takeWhile (\<lambda>c. c \<in> set ''0123456789'') (CHR ''_'' # rest)"
    by (rule takeWhile_append2)
  also have "takeWhile (\<lambda>c. c \<in> set ''0123456789'') (CHR ''_'' # rest) = []"
    by simp
  finally show ?thesis by simp
qed

lemma snapshot_filename_inj:
  "snapshot_filename t1 h1 = snapshot_filename t2 h2 \<longleftrightarrow> t1 = t2 \<and> h1 = h2"
proof
  assume eq: "snapshot_filename t1 h1 = snapshot_filename t2 h2"
  then have tail: "digits t1 @ CHR ''_'' # (h1 @ ''.json'')
      = digits t2 @ CHR ''_'' # (h2 @ ''.json'')"
    by (simp add: snapshot_filename_def)
  then have "takeWhile (\<lambda>c. c \<in> set ''0123456789'') (digits t1 @ CHR ''_'' # (h1 @ ''.json''))
      = takeWhile (\<lambda>c. c \<in> set ''0123456789'') (digits t2 @ CHR ''_'' # (h2 @ ''.json''))"
    by (rule arg_cong)
  then have d: "digits t1 = digits t2" by (simp only: takeWhile_digits)
  then have "t1 = t2" by (rule digits_inj)
  moreover from tail d have "h1 = h2" by simp
  ultimately show "t1 = t2 \<and> h1 = h2" by simp
next
  assume "t1 = t2 \<and> h1 = h2"
  then show "snapshot_filename t1 h1 = snapshot_filename t2 h2" by simp
qed

lemma saveSnapshot_succeeds:
  "saveSnapshot P now Succeeds j st =
     st\<lparr>io_trace := io_trace st @ [FileWrite (snapshot_path P now j)],
        fs := (fs st)(snapshot_path P now j \<mapsto> utf8 P j),
        console := console st
          @ [SavedSnapshot (snapshot_filename now (take 8 (md5_hex P (utf8 P j))))]\<rparr>"
  by (simp add: saveSnapshot_def snapshot_path_def trace_def console_write_def Let_def)

lemma saveSnapshot_throws:
  "saveSnapshot P now Throws j st =
     st\<lparr>io_trace := io_trace st @ [FileWrite (snapshot_path P now j)],
        console := console st @ [FailedToSaveSnapshot IOError]\<rparr>"
  by (simp add: saveSnapshot_def snapshot_path_def trace_def console_write_def Let_def)

lemma sampler_cycle_same:
  "traverse b = Some tree \<Longrightarrow> js (toString (simpleHash (json_stringify P tree))) = h \<Longrightarrow>
   sampler_cycle P (Some b) h = (h, None)"
  by (simp add: sampler_cycle_def Let_def)

lemma sampler_cycle_changed:
  "traverse b = Some tree \<Longrightarrow> js (toString (simpleHash (json_stringify P tree))) \<noteq> h \<Longrightarrow>
   sampler_cycle P (Some b) h
     = (js (toString (simpleHash (json_stringify P tree))), Some (json_stringify P tree))"
  by (simp add: sampler_cycle_def Let_def)

lemma sampler_cycle_nothing:
  "sampler_cycle P None h = (h, None)"
  "traverse b = None \<Longrightarrow> sampler_cycle P (Some b) h = (h, None)"
  by (simp_all add: sampler_cycle_def)

lemma on_tick_idle: "sampler_cycle P d (lastHash st) = (lastHash st, None) \<Longrightarrow> on_tick P now w d st = st"
  by (simp add: on_tick_def)

lemma on_tick_forwards:
  "sampler_cycle P d (lastHash st) = (h, Some j) \<Longrightarrow>
   on_tick P now w d st = saveSnapshot P now w j (st\<lparr>lastHash := h\<rparr>)"
  by (simp add: on_tick_def)

lemma handle_lastHash_idle:
  "\<not> computes_snapshot ev \<Longrightarrow> lastHash st = [] \<Longrightarrow> lastHash (handle P ev st) = []"
proof (cases ev)
  case (SamplerTick now w d)
  assume idle: "\<not> computes_snapshot ev" and empty: "lastHash st = []"
  have "sampler_cycle P d (lastHash st) = (lastHash st, None)"
  proof (cases d)
    case None
    then show ?thesis by (simp add: sampler_cycle_nothing)
  next
    case (Some b)
    with idle SamplerTick have "traverse b = None" by simp
    with Some show ?thesis by (simp add: sampler_cycle_nothing)
  qed
  then show ?thesis using SamplerTick empty by (simp add: on_tick_idle)
qed (simp_all add: on_request_def on_response_def on_websocket_def on_framesent_def
       on_framereceived_def console_write_def Let_def)

lemma run_lastHash_idle:
  "\<forall>ev \<in> set es. \<not> computes_snapshot ev \<Longrightarrow> lastHash st = [] \<Longrightarrow>
   lastHash (run P es st) = []"
  unfolding run_def
  by (induction es arbitrary: st) (simp_all add: handle_lastHash_idle)

text \<open>
  C2, as amended. On a sampler cycle that computes a snapshot: if the hash of the
  serialized tree equals the stored last hash, nothing is forwarded and nothing changes,
  files included. If it differs, exactly one snapshot is forwarded, the host issues
  exactly one write, to \<open>snapshots/snapshot_{now}_{shortHash}.json\<close>, and the stored
  hash becomes the new hash. That write, when it succeeds, stores the string at that
  path, one new file when the path was free; when it throws, no file changes. The stored
  hash changes exactly when a snapshot is forwarded.
\<close>

theorem snapshot_change_gate:
  assumes tree: "traverse b = Some tree"
    and jsonString: "jsonString = json_stringify P tree"
    and currentHash: "currentHash = js (toString (simpleHash jsonString))"
    and filepath: "filepath = path_join SNAPSHOTS_DIR
        (snapshot_filename now (take 8 (md5_hex P (utf8 P jsonString))))"
    and st': "st' = handle P (SamplerTick now w (Some b)) st"
  shows "(currentHash = lastHash st \<longrightarrow>
            sampler_cycle P (Some b) (lastHash st) = (lastHash st, None) \<and> st' = st)
     \<and> (currentHash \<noteq> lastHash st \<longrightarrow>
            sampler_cycle P (Some b) (lastHash st) = (currentHash, Some jsonString)
            \<and> lastHash st' = currentHash
            \<and> io_trace st' = io_trace st @ [FileWrite filepath]
            \<and> (w = Succeeds \<longrightarrow> fs st' = (fs st)(filepath \<mapsto> utf8 P jsonString))
            \<and> (w = Succeeds \<and> filepath \<notin> dom (fs st) \<longrightarrow>
                   dom (fs st') = insert filepath (dom (fs st)))
            \<and> (w = Throws \<longrightarrow> fs st' = fs st))
     \<and> (lastHash st' \<noteq> lastHash st
            \<longleftrightarrow> snd (sampler_cycle P (Some b) (lastHash st)) \<noteq> None)"
proof (cases "currentHash = lastHash st")
  case True
  then have cyc: "sampler_cycle P (Some b) (lastHash st) = (lastHash st, None)"
    using sampler_cycle_same [OF tree, of P "lastHash st"] jsonString currentHash by simp
  then have "st' = st" using st' by (simp add: on_tick_idle)
  with True cyc show ?thesis by simp
next
  case False
  then have cyc: "sampler_cycle P (Some b) (lastHash st) = (currentHash, Some jsonString)"
    using sampler_cycle_changed [OF tree, of P "lastHash st"] jsonString currentHash by simp
  then have eq: "st' = saveSnapshot P now w jsonString (st\<lparr>lastHash := currentHash\<rparr>)"
    using st' by (simp add: on_tick_forwards)
  have path: "snapshot_path P now jsonString = filepath"
    using filepath by (simp add: snapshot_path_def)
  have "lastHash st' = currentHash \<and> io_trace st' = io_trace st @ [FileWrite filepath]
     \<and> (w = Succeeds \<longrightarrow> fs st' = (fs st)(filepath \<mapsto> utf8 P jsonString))
     \<and> (w = Throws \<longrightarrow> fs st' = fs st)"
    using eq path by (cases w) (simp_all add: saveSnapshot_succeeds saveSnapshot_throws)
  with False cyc show ?thesis by auto
qed

lemma digit_char_code: "d < 10 \<Longrightarrow> of_char (''0123456789'' ! d) = (48::nat) + d"
proof -
  assume "d < 10"
  then have "d \<in> set [0..<10]" by simp
  moreover have "\<forall>k \<in> set [0..<10]. of_char (''0123456789'' ! k) = (48::nat) + k"
    by (simp add: upt_rec)
  ultimately show ?thesis by blast
qed

lemma decimal_value_snoc:
  "decimal_value (ds @ [c]) = 10 * decimal_value ds + (of_char c - 48)"
  by (simp add: decimal_value_def)

lemma decimal_value_digits: "decimal_value (digits n) = n"
proof (induction n rule: digits.induct)
  case (1 n)
  show ?case
  proof (cases "n < 10")
    case True
    then show ?thesis
      by (subst digits.simps) (simp add: decimal_value_def digit_char_code)
  next
    case False
    have "n mod 10 < 10" by simp
    then have "of_char (''0123456789'' ! (n mod 10)) = (48::nat) + n mod 10"
      by (rule digit_char_code)
    with False 1 have "decimal_value (digits n) = 10 * (n div 10) + n mod 10"
      by (subst digits.simps) (simp add: decimal_value_snoc)
    then show ?thesis by (simp only: mult_div_mod_eq)
  qed
qed

lemma toInt32_range: "- (2 ^ 31) \<le> toInt32 x \<and> toInt32 x < 2 ^ 31"
proof -
  define m where "m = (x + 2 ^ 31) mod (2 ^ 32 :: int)"
  have "0 \<le> m" "m < 2 ^ 32" by (simp_all add: m_def)
  then have "- 2147483648 \<le> m - 2147483648 \<and> m - 2147483648 < 2147483648" by simp
  moreover have "toInt32 x = m - 2147483648" by (simp add: toInt32_def m_def)
  ultimately show ?thesis by simp
qed

lemma simpleHash_range: "- (2 ^ 31) \<le> simpleHash s \<and> simpleHash s < 2 ^ 31"
proof (cases s rule: rev_cases)
  case Nil
  then show ?thesis by (simp add: simpleHash_def)
next
  case (snoc xs c)
  then have "simpleHash s = toInt32 ((toInt32 (toInt32 (simpleHash xs) * 32) - simpleHash xs) + uint c)"
    by (simp add: simpleHash_def simpleHash_step_def)
  then show ?thesis using toInt32_range by simp
qed

lemma toString_decimal:
  "\<exists>ds. ds \<noteq> [] \<and> set ds \<subseteq> set ''0123456789'' \<and> decimal_value ds = nat \<bar>i\<bar>
        \<and> toString i = (if i < 0 then CHR ''-'' # ds else ds)"
proof (cases "i < 0")
  case True
  then have "nat \<bar>i\<bar> = nat (- i)" by simp
  with True show ?thesis
    using digits_nonempty [of "nat (- i)"] digits_are_digits [of "nat (- i)"]
      decimal_value_digits [of "nat (- i)"]
    by (intro exI [of _ "digits (nat (- i))"]) (simp add: toString_def)
next
  case False
  then have "nat \<bar>i\<bar> = nat i" by simp
  with False show ?thesis
    using digits_nonempty [of "nat i"] digits_are_digits [of "nat i"]
      decimal_value_digits [of "nat i"]
    by (intro exI [of _ "digits (nat i)"]) (simp add: toString_def)
qed


text \<open>
  C10, as amended. \<open>simpleHash\<close> is a 32-bit integer and its rendering is a decimal
  string: a minus sign when it is negative, then one or more decimal digits denoting its
  absolute value; so it is never the empty string. In a session the stored hash stays
  \<open>''\<close> as long as no cycle computes a snapshot, so the first cycle that does compute
  one forwards it, the host issues one write for it, and the stored hash becomes its hash.
  When that write succeeds the snapshot is on disk; when it throws no file changes, and a
  later cycle over the same body forwards nothing. A cycle with no \<open>document.body\<close>, or
  whose body is pruned to \<open>null\<close>, forwards nothing and leaves the state, the stored hash
  included, as it was.
\<close>

theorem first_snapshot_is_forwarded:
  "js (toString (simpleHash s)) \<noteq> []
   \<and> (\<exists>ds. ds \<noteq> [] \<and> set ds \<subseteq> set ''0123456789''
          \<and> decimal_value ds = nat \<bar>simpleHash s\<bar>
          \<and> toString (simpleHash s) = (if simpleHash s < 0 then CHR ''-'' # ds else ds))
   \<and> - (2 ^ 31) \<le> simpleHash s \<and> simpleHash s < 2 ^ 31
   \<and> ((\<forall>ev \<in> set es. \<not> computes_snapshot ev) \<longrightarrow> lastHash (run P es (start files)) = [])
   \<and> ((\<forall>ev \<in> set es. \<not> computes_snapshot ev) \<and> traverse b = Some tree \<longrightarrow>
         lastHash (run P (es @ [SamplerTick now w (Some b)]) (start files))
           = js (toString (simpleHash (json_stringify P tree)))
         \<and> io_trace (run P (es @ [SamplerTick now w (Some b)]) (start files))
           = io_trace (run P es (start files))
               @ [FileWrite (snapshot_path P now (json_stringify P tree))])
   \<and> (traverse b = Some tree \<and> lastHash st = [] \<longrightarrow>
         sampler_cycle P (Some b) (lastHash st)
           = (js (toString (simpleHash (json_stringify P tree))), Some (json_stringify P tree))
         \<and> io_trace (handle P (SamplerTick now w (Some b)) st)
           = io_trace st @ [FileWrite (snapshot_path P now (json_stringify P tree))]
         \<and> lastHash (handle P (SamplerTick now w (Some b)) st)
           = js (toString (simpleHash (json_stringify P tree)))
         \<and> (w = Succeeds \<longrightarrow>
               fs (handle P (SamplerTick now w (Some b)) st)
                 (snapshot_path P now (json_stringify P tree))
               = Some (utf8 P (json_stringify P tree)))
         \<and> (w = Succeeds \<longrightarrow>
               fs (handle P (SamplerTick now w (Some b)) st)
               = (fs st)(snapshot_path P now (json_stringify P tree)
                    \<mapsto> utf8 P (json_stringify P tree)))
         \<and> (w = Throws \<longrightarrow> fs (handle P (SamplerTick now w (Some b)) st) = fs st)
         \<and> handle P (SamplerTick later w2 (Some b)) (handle P (SamplerTick now w (Some b)) st)
           = handle P (SamplerTick now w (Some b)) st)
   \<and> sampler_cycle P None h = (h, None)
   \<and> handle P (SamplerTick now w None) st = st
   \<and> (traverse b = None \<longrightarrow>
         sampler_cycle P (Some b) h = (h, None)
         \<and> handle P (SamplerTick now w (Some b)) st = st)"
proof -
  have nonempty: "js (toString (simpleHash x)) \<noteq> []" for x
    by (simp add: js_nonempty toString_nonempty)
  have idle: "(\<forall>ev \<in> set es. \<not> computes_snapshot ev) \<longrightarrow> lastHash (run P es (start files)) = []"
    using run_lastHash_idle [of es "start files" P] by simp
  have first: "sampler_cycle P (Some b) (lastHash st)
           = (js (toString (simpleHash (json_stringify P tree))), Some (json_stringify P tree))
         \<and> io_trace (handle P (SamplerTick now w (Some b)) st)
           = io_trace st @ [FileWrite (snapshot_path P now (json_stringify P tree))]
         \<and> lastHash (handle P (SamplerTick now w (Some b)) st)
           = js (toString (simpleHash (json_stringify P tree)))
         \<and> (w = Succeeds \<longrightarrow>
               fs (handle P (SamplerTick now w (Some b)) st)
                 (snapshot_path P now (json_stringify P tree))
               = Some (utf8 P (json_stringify P tree)))
         \<and> (w = Succeeds \<longrightarrow>
               fs (handle P (SamplerTick now w (Some b)) st)
               = (fs st)(snapshot_path P now (json_stringify P tree)
                    \<mapsto> utf8 P (json_stringify P tree)))
         \<and> (w = Throws \<longrightarrow> fs (handle P (SamplerTick now w (Some b)) st) = fs st)"
    if tree: "traverse b = Some tree" and empty: "lastHash st = []" for st
  proof -
    have cyc: "sampler_cycle P (Some b) (lastHash st)
        = (js (toString (simpleHash (json_stringify P tree))), Some (json_stringify P tree))"
      using sampler_cycle_changed [OF tree, of P "lastHash st"] nonempty empty by simp
    then show ?thesis
      by (cases w) (simp_all add: on_tick_forwards saveSnapshot_succeeds saveSnapshot_throws)
  qed
  have once: "handle P (SamplerTick later w2 (Some b)) (handle P (SamplerTick now w (Some b)) st)
      = handle P (SamplerTick now w (Some b)) st"
    if tree: "traverse b = Some tree" and empty: "lastHash st = []"
  proof -
    let ?st1 = "handle P (SamplerTick now w (Some b)) st"
    from first [OF tree empty]
    have "js (toString (simpleHash (json_stringify P tree))) = lastHash ?st1" by simp
    from sampler_cycle_same [OF tree this]
    show ?thesis by (simp add: on_tick_idle)
  qed
  have session: "lastHash (run P (es @ [SamplerTick now w (Some b)]) (start files))
           = js (toString (simpleHash (json_stringify P tree)))
         \<and> io_trace (run P (es @ [SamplerTick now w (Some b)]) (start files))
           = io_trace (run P es (start files))
               @ [FileWrite (snapshot_path P now (json_stringify P tree))]"
    if quiet: "\<forall>ev \<in> set es. \<not> computes_snapshot ev" and tree: "traverse b = Some tree"
  proof -
    from idle quiet have empty: "lastHash (run P es (start files)) = []" by blast
    have "run P (es @ [SamplerTick now w (Some b)]) (start files)
        = handle P (SamplerTick now w (Some b)) (run P es (start files))"
      by (simp add: run_def)
    with first [OF tree empty] show ?thesis by simp
  qed
  have absent: "handle P (SamplerTick now w None) st = st"
    by (simp add: on_tick_idle sampler_cycle_nothing)
  have pruned_body: "sampler_cycle P (Some b) h = (h, None)
      \<and> handle P (SamplerTick now w (Some b)) st = st" if "traverse b = None"
    using that by (simp add: on_tick_idle sampler_cycle_nothing)
  from nonempty [of s] toString_decimal [of "simpleHash s"] simpleHash_range [of s] idle session
    first [of st] once absent pruned_body sampler_cycle_nothing(1) [of P h]
  show ?thesis by blast
qed


text \<open>
  C9, as amended. Two snapshot writes go to the same file exactly when both the
  \<open>Date.now()\<close> reading and the eight-digit short hash agree. So different readings
  alone give different files, whatever the contents; equal readings give different files
  only when the short hashes differ. Nothing in \<open>saveSnapshot\<close> makes the readings of
  two calls differ.
\<close>

theorem snapshot_filenames:
  "(snapshot_path P t1 j1 = snapshot_path P t2 j2
      \<longleftrightarrow> t1 = t2 \<and> take 8 (md5_hex P (utf8 P j1)) = take 8 (md5_hex P (utf8 P j2)))
   \<and> io_trace (saveSnapshot P t1 w j1 st) = io_trace st @ [FileWrite (snapshot_path P t1 j1)]
   \<and> (t1 \<noteq> t2 \<longrightarrow>
        io_trace (saveSnapshot P t2 w2 j2 (saveSnapshot P t1 w j1 st))
          = io_trace st @ [FileWrite (snapshot_path P t1 j1), FileWrite (snapshot_path P t2 j2)]
        \<and> snapshot_path P t1 j1 \<noteq> snapshot_path P t2 j2)"
proof -
  have inj: "snapshot_path P a x = snapshot_path P c y
      \<longleftrightarrow> a = c \<and> take 8 (md5_hex P (utf8 P x)) = take 8 (md5_hex P (utf8 P y))" for a c x y
    by (simp add: snapshot_path_def path_join_def snapshot_filename_inj)
  have tr: "io_trace (saveSnapshot P a v x s) = io_trace s @ [FileWrite (snapshot_path P a x)]"
    for a v x s
    by (cases v) (simp_all add: saveSnapshot_succeeds saveSnapshot_throws)
  show ?thesis using inj [of t1 j1 t2 j2] by (simp add: tr)
qed

lemma style_of_display [simp]: "style_of d opac ''display'' = js d"
  by (simp add: style_of_def)

lemma style_of_opacity [simp]: "style_of d opac ''opacity'' = js opac"
  by (simp add: style_of_def)

lemma js_literals:
  "js ''DIV'' \<notin> set excluded_tags" "js ''BODY'' \<notin> set excluded_tags"
  "js ''SCRIPT'' \<in> set excluded_tags"
  "js ''block'' \<noteq> js ''none''"
  by (simp_all add: excluded_tags_def js_def)

lemma trim_hello: "trim (js '' hello '') = js ''hello''"
  by (simp add: trim_def js_def is_js_whitespace_def)

lemma traverse_banner: "traverse banner = Some banner_node"
  by (simp add: banner_def banner_node_def js_literals textContent_of_def trim_hello)

lemma traverse_tracker: "traverse tracker = None"
  by (simp add: tracker_def js_literals)

lemma traverse_popup: "traverse popup = None"
  by (simp add: popup_def js_literals)

lemma traverse_page_a: "traverse page_a = Some tree_a"
  by (simp add: page_a_def tree_a_def js_literals textContent_of_def traverse_banner
      traverse_tracker traverse_popup)

lemma traverse_page_b: "traverse page_b = Some tree_b"
  by (simp add: page_b_def tree_b_def js_literals textContent_of_def traverse_tracker)

lemma json_a: "json_stringify sample_platform tree_a = js ''<BODYblock1<DIVblock0>>''"
  by (simp add: sample_platform_def tree_a_def banner_node_def getComputedStyles_def
      style_properties_def style_of_def js_def)

lemma json_b: "json_stringify sample_platform tree_b = js ''<BODYblock1>''"
  by (simp add: sample_platform_def tree_b_def getComputedStyles_def
      style_properties_def style_of_def js_def)

lemma hash_a:
  "js (toString (simpleHash (json_stringify sample_platform tree_a))) = js ''-1952638566''"
  unfolding json_a
  by (simp add: simpleHash_def simpleHash_step_def toInt32_def js_def toString_def digits.simps)

lemma hash_b:
  "js (toString (simpleHash (json_stringify sample_platform tree_b))) = js ''292663772''"
  unfolding json_b
  by (simp add: simpleHash_def simpleHash_step_def toInt32_def js_def toString_def digits.simps)

lemma hashes_differ: "js ''-1952638566'' \<noteq> js ''292663772''"
  by (simp add: js_def)

lemma snapshot_path_a:
  "snapshot_path sample_platform 1700000000000 (json_stringify sample_platform tree_a) = path_a"
  unfolding json_a
  by (simp add: snapshot_path_def snapshot_filename_def path_join_def SNAPSHOTS_DIR_def
      OUTPUT_DIR_def sample_platform_def sample_digest_def js_def digits.simps path_a_def)

lemma snapshot_path_b:
  "snapshot_path sample_platform 1700000000000 (json_stringify sample_platform tree_b) = path_b"
  unfolding json_b
  by (simp add: snapshot_path_def snapshot_filename_def path_join_def SNAPSHOTS_DIR_def
      OUTPUT_DIR_def sample_platform_def sample_digest_def js_def digits.simps path_b_def)

lemma traverse_hidden_page: "traverse hidden_page = None"
  by (simp add: hidden_page_def js_literals)

lemma tick_forwards:
  assumes "traverse b = Some tree"
    and "js (toString (simpleHash (json_stringify P tree))) = h" and "h \<noteq> lastHash st"
  shows "handle P (SamplerTick now Succeeds (Some b)) st =
     st\<lparr>lastHash := h,
        io_trace := io_trace st @ [FileWrite (snapshot_path P now (json_stringify P tree))],
        fs := (fs st)(snapshot_path P now (json_stringify P tree)
                \<mapsto> utf8 P (json_stringify P tree)),
        console := console st @ [SavedSnapshot (snapshot_filename now
                     (take 8 (md5_hex P (utf8 P (json_stringify P tree)))))]\<rparr>"
proof -
  have "sampler_cycle P (Some b) (lastHash st) = (h, Some (json_stringify P tree))"
    using sampler_cycle_changed [OF assms(1), of P "lastHash st"] assms(2,3) by simp
  then show ?thesis by (simp add: on_tick_forwards saveSnapshot_succeeds)
qed

lemma sampler_cycle_page_a:
  "sampler_cycle sample_platform (Some page_a) (lastHash (start Map.empty))
     = (js ''-1952638566'', Some (json_stringify sample_platform tree_a))"
proof -
  have "js ''-1952638566'' \<noteq> lastHash (start Map.empty)" by (simp add: js_def)
  then show ?thesis
    using sampler_cycle_changed [OF traverse_page_a, of sample_platform "lastHash (start Map.empty)"]
    by (simp add: hash_a)
qed

text \<open>
  C9 as stated fails: three snapshots forwarded in one session (page A, page B, page A
  again) and persisted at the same clock reading give three writes but two files: the
  third write goes to the first one's filename.
\<close>

theorem snapshot_filename_collision:
  "io_trace (run sample_platform
      [SamplerTick 1700000000000 Succeeds (Some page_a),
       SamplerTick 1700000000000 Succeeds (Some page_b),
       SamplerTick 1700000000000 Succeeds (Some page_a)] (start Map.empty))
     = [FileWrite path_a, FileWrite path_b, FileWrite path_a]
   \<and> dom (fs (run sample_platform
      [SamplerTick 1700000000000 Succeeds (Some page_a),
       SamplerTick 1700000000000 Succeeds (Some page_b),
       SamplerTick 1700000000000 Succeeds (Some page_a)] (start Map.empty)))
     = {path_a, path_b}"
proof -
  let ?P = sample_platform
  let ?t = "1700000000000 :: nat"
  let ?st1 = "handle ?P (SamplerTick ?t Succeeds (Some page_a)) (start Map.empty)"
  let ?st2 = "handle ?P (SamplerTick ?t Succeeds (Some page_b)) ?st1"
  let ?st3 = "handle ?P (SamplerTick ?t Succeeds (Some page_a)) ?st2"
  have "js ''-1952638566'' \<noteq> lastHash (start Map.empty)" by (simp add: js_def)
  from tick_forwards [OF traverse_page_a hash_a this, of ?t]
  have st1: "lastHash ?st1 = js ''-1952638566''" "io_trace ?st1 = [FileWrite path_a]"
    "dom (fs ?st1) = {path_a}"
    by (simp_all add: snapshot_path_a)
  have "js ''292663772'' \<noteq> lastHash ?st1" using st1(1) hashes_differ by simp
  from tick_forwards [OF traverse_page_b hash_b this, of ?t]
  have st2: "lastHash ?st2 = js ''292663772''"
    "io_trace ?st2 = [FileWrite path_a, FileWrite path_b]"
    "dom (fs ?st2) = {path_a, path_b}"
    using st1 by (auto simp: snapshot_path_b)
  have "js ''-1952638566'' \<noteq> lastHash ?st2" using st2(1) hashes_differ by simp
  from tick_forwards [OF traverse_page_a hash_a this, of ?t]
  have "io_trace ?st3 = [FileWrite path_a, FileWrite path_b, FileWrite path_a]"
    "dom (fs ?st3) = {path_a, path_b}"
    using st2 by (auto simp: snapshot_path_a)
  then show ?thesis by (simp add: run_def)
qed

theorem snapshot_filenames_witness:
  "(1700000000000 :: nat) \<noteq> 1700000002000
   \<and> snapshot_path sample_platform 1700000000000 (js ''<BODYblock1>'')
       \<noteq> snapshot_path sample_platform 1700000002000 (js ''<BODYblock1>'')"
  using snapshot_filenames [of sample_platform 1700000000000 "js ''<BODYblock1>''"
      1700000002000 "js ''<BODYblock1>''"]
  by simp

theorem snapshot_change_gate_witness:
  "traverse page_a = Some tree_a
   \<and> js (toString (simpleHash (json_stringify sample_platform tree_a)))
        \<noteq> lastHash (start Map.empty)
   \<and> io_trace (handle sample_platform (SamplerTick 1700000000000 Succeeds (Some page_a))
        (start Map.empty)) = [FileWrite path_a]
   \<and> dom (fs (handle sample_platform (SamplerTick 1700000000000 Succeeds (Some page_a))
        (start Map.empty))) = {path_a}
   \<and> handle sample_platform (SamplerTick 1700000002000 Succeeds (Some page_a))
        (handle sample_platform (SamplerTick 1700000000000 Succeeds (Some page_a))
           (start Map.empty))
      = handle sample_platform (SamplerTick 1700000000000 Succeeds (Some page_a))
          (start Map.empty)"
proof -
  let ?st1 = "handle sample_platform (SamplerTick 1700000000000 Succeeds (Some page_a))
      (start Map.empty)"
  have changed: "js (toString (simpleHash (json_stringify sample_platform tree_a)))
      \<noteq> lastHash (start Map.empty)"
    by (simp add: js_nonempty toString_nonempty)
  have path: "path_a = path_join SNAPSHOTS_DIR (snapshot_filename 1700000000000
      (take 8 (md5_hex sample_platform
         (utf8 sample_platform (json_stringify sample_platform tree_a)))))"
    using snapshot_path_a by (simp add: snapshot_path_def)
  note first = snapshot_change_gate [OF traverse_page_a refl refl path refl,
      where st = "start Map.empty" and w = Succeeds]
  from first changed have st1: "lastHash ?st1
      = js (toString (simpleHash (json_stringify sample_platform tree_a)))"
    "io_trace ?st1 = [FileWrite path_a]" "dom (fs ?st1) = {path_a}"
    by simp_all
  note second = snapshot_change_gate [OF traverse_page_a refl refl refl refl,
      where st = ?st1 and w = Succeeds and now = 1700000002000]
  from second st1(1)
  have "handle sample_platform (SamplerTick 1700000002000 Succeeds (Some page_a)) ?st1 = ?st1"
    by simp
  with traverse_page_a changed st1 show ?thesis by simp
qed

text \<open>
  C2 as stated fails where it promises a file: the hash differs from the stored one, one
  snapshot is forwarded and the stored hash is updated, but the write throws, the error
  is swallowed, and no snapshot file exists afterwards.
\<close>

theorem forwarded_snapshot_not_written:
  "traverse page_a = Some tree_a
   \<and> js (toString (simpleHash (json_stringify sample_platform tree_a)))
        \<noteq> lastHash (start Map.empty)
   \<and> sampler_cycle sample_platform (Some page_a) (lastHash (start Map.empty))
        = (js ''-1952638566'', Some (json_stringify sample_platform tree_a))
   \<and> lastHash (handle sample_platform (SamplerTick 1700000000000 Throws (Some page_a))
        (start Map.empty)) = js ''-1952638566''
   \<and> io_trace (handle sample_platform (SamplerTick 1700000000000 Throws (Some page_a))
        (start Map.empty)) = [FileWrite path_a]
   \<and> fs (handle sample_platform (SamplerTick 1700000000000 Throws (Some page_a))
        (start Map.empty)) = Map.empty"
proof -
  have changed: "js (toString (simpleHash (json_stringify sample_platform tree_a)))
      \<noteq> lastHash (start Map.empty)"
    by (simp add: js_nonempty toString_nonempty)
  have "handle sample_platform (SamplerTick 1700000000000 Throws (Some page_a)) (start Map.empty)
      = saveSnapshot sample_platform 1700000000000 Throws (json_stringify sample_platform tree_a)
          ((start Map.empty)\<lparr>lastHash := js ''-1952638566''\<rparr>)"
    using sampler_cycle_page_a by (simp add: on_tick_forwards)
  then have "lastHash (handle sample_platform (SamplerTick 1700000000000 Throws (Some page_a))
        (start Map.empty)) = js ''-1952638566''
     \<and> io_trace (handle sample_platform (SamplerTick 1700000000000 Throws (Some page_a))
        (start Map.empty)) = [FileWrite path_a]
     \<and> fs (handle sample_platform (SamplerTick 1700000000000 Throws (Some page_a))
        (start Map.empty)) = Map.empty"
    by (simp add: saveSnapshot_throws snapshot_path_a)
  with traverse_page_a changed sampler_cycle_page_a show ?thesis by blast
qed

lemma tick_throws:
  assumes "traverse b = Some tree"
    and "js (toString (simpleHash (json_stringify P tree))) = h" and "h \<noteq> lastHash st"
  shows "handle P (SamplerTick now Throws (Some b)) st =
     st\<lparr>lastHash := h,
        io_trace := io_trace st @ [FileWrite (snapshot_path P now (json_stringify P tree))],
        console := console st @ [FailedToSaveSnapshot IOError]\<rparr>"
proof -
  have "sampler_cycle P (Some b) (lastHash st) = (h, Some (json_stringify P tree))"
    using sampler_cycle_changed [OF assms(1), of P "lastHash st"] assms(2,3) by simp
  then show ?thesis by (simp add: on_tick_forwards saveSnapshot_throws)
qed

lemma tick_same:
  assumes "traverse b = Some tree"
    and "js (toString (simpleHash (json_stringify P tree))) = lastHash st"
  shows "handle P (SamplerTick now w (Some b)) st = st"
  using sampler_cycle_same [OF assms] by (simp add: on_tick_idle)

theorem first_snapshot_is_forwarded_witness:
  "\<not> computes_snapshot PageLoaded
   \<and> \<not> computes_snapshot (SamplerTick 1000 Succeeds None)
   \<and> \<not> computes_snapshot (SamplerTick 3000 Succeeds (Some hidden_page))
   \<and> lastHash (run sample_platform [PageLoaded, SamplerTick 1000 Succeeds None,
        SamplerTick 3000 Succeeds (Some hidden_page)] (start Map.empty)) = []
   \<and> traverse hidden_page = None
   \<and> traverse page_a = Some tree_a
   \<and> lastHash (run sample_platform ([PageLoaded, SamplerTick 1000 Succeeds None,
        SamplerTick 3000 Succeeds (Some hidden_page)]
        @ [SamplerTick 1700000000000 Succeeds (Some page_a)]) (start Map.empty))
       = js ''-1952638566''
   \<and> io_trace (handle sample_platform (SamplerTick 1700000000000 Succeeds (Some page_a))
        (start Map.empty)) = [FileWrite path_a]
   \<and> lastHash (handle sample_platform (SamplerTick 1700000000000 Succeeds (Some page_a))
        (start Map.empty)) = js ''-1952638566''
   \<and> fs (handle sample_platform (SamplerTick 1700000000000 Succeeds (Some page_a))
        (start Map.empty)) path_a
       = Some (utf8 sample_platform (json_stringify sample_platform tree_a))
   \<and> fs (handle sample_platform (SamplerTick 1700000000000 Throws (Some page_a))
        (start Map.empty)) = Map.empty
   \<and> toString (simpleHash (json_stringify sample_platform tree_a)) = ''-1952638566''
   \<and> decimal_value ''1952638566'' = 1952638566"
proof -
  have idle: "\<forall>ev \<in> set [PageLoaded, SamplerTick 1000 Succeeds None,
        SamplerTick 3000 Succeeds (Some hidden_page)]. \<not> computes_snapshot ev"
    by (simp add: traverse_hidden_page)
  note first = first_snapshot_is_forwarded [where es = "[PageLoaded, SamplerTick 1000 Succeeds None,
        SamplerTick 3000 Succeeds (Some hidden_page)]" and P = sample_platform
        and files = Map.empty and b = page_a and tree = tree_a and st = "start Map.empty"
        and now = 1700000000000 and w = Succeeds]
  note failed = first_snapshot_is_forwarded [where P = sample_platform
        and b = page_a and tree = tree_a and st = "start Map.empty"
        and now = 1700000000000 and w = Throws]
  from first idle have a: "lastHash (run sample_platform [PageLoaded, SamplerTick 1000 Succeeds None,
        SamplerTick 3000 Succeeds (Some hidden_page)] (start Map.empty)) = []"
    by blast
  from first idle traverse_page_a
  have "lastHash (run sample_platform ([PageLoaded, SamplerTick 1000 Succeeds None,
        SamplerTick 3000 Succeeds (Some hidden_page)]
        @ [SamplerTick 1700000000000 Succeeds (Some page_a)]) (start Map.empty))
       = js (toString (simpleHash (json_stringify sample_platform tree_a)))"
    by blast
  then have b: "lastHash (run sample_platform ([PageLoaded, SamplerTick 1000 Succeeds None,
        SamplerTick 3000 Succeeds (Some hidden_page)]
        @ [SamplerTick 1700000000000 Succeeds (Some page_a)]) (start Map.empty))
       = js ''-1952638566''"
    by (simp only: hash_a)
  from first traverse_page_a
  have c: "io_trace (handle sample_platform (SamplerTick 1700000000000 Succeeds (Some page_a))
        (start Map.empty)) = [FileWrite path_a]
     \<and> lastHash (handle sample_platform (SamplerTick 1700000000000 Succeeds (Some page_a))
        (start Map.empty)) = js ''-1952638566''
     \<and> fs (handle sample_platform (SamplerTick 1700000000000 Succeeds (Some page_a))
        (start Map.empty)) path_a
       = Some (utf8 sample_platform (json_stringify sample_platform tree_a))"
    by (simp add: snapshot_path_a hash_a)
  from failed traverse_page_a
  have d: "fs (handle sample_platform (SamplerTick 1700000000000 Throws (Some page_a))
        (start Map.empty)) = Map.empty"
    by simp
  have e: "toString (simpleHash (json_stringify sample_platform tree_a)) = ''-1952638566''"
    unfolding json_a
    by (simp add: simpleHash_def simpleHash_step_def toInt32_def js_def toString_def digits.simps)
  have f: "decimal_value ''1952638566'' = 1952638566"
    by (simp add: decimal_value_def)
  from a b c d e f traverse_hidden_page traverse_page_a show ?thesis by simp
qed

text \<open>
  C10 as stated fails in its heading: the first snapshot of a session is forwarded, its
  write throws, and it is never persisted. The next cycle finds the same body, whose hash
  is now the stored one, and forwards nothing, so at the end of the session the only file
  is the asset map.
\<close>

theorem first_snapshot_never_persisted:
  "traverse page_a = Some tree_a
   \<and> lastHash (run sample_platform [PageLoaded, SamplerTick 1000 Succeeds None]
        (start Map.empty)) = []
   \<and> lastHash (run sample_platform
        [PageLoaded, SamplerTick 1000 Succeeds None,
         SamplerTick 1700000000000 Throws (Some page_a),
         SamplerTick 1700000002000 Succeeds (Some page_a)] (start Map.empty))
       = js ''-1952638566''
   \<and> io_trace (run sample_platform
        [PageLoaded, SamplerTick 1000 Succeeds None,
         SamplerTick 1700000000000 Throws (Some page_a),
         SamplerTick 1700000002000 Succeeds (Some page_a)] (start Map.empty))
       = [FileWrite path_a]
   \<and> fs (run sample_platform
        [PageLoaded, SamplerTick 1000 Succeeds None,
         SamplerTick 1700000000000 Throws (Some page_a),
         SamplerTick 1700000002000 Succeeds (Some page_a)] (start Map.empty))
       = Map.empty
   \<and> dom (fs (fst (session sample_platform Map.empty
        [PageLoaded, SamplerTick 1000 Succeeds None,
         SamplerTick 1700000000000 Throws (Some page_a),
         SamplerTick 1700000002000 Succeeds (Some page_a)] Succeeds)))
       = {ASSETS_MAP_FILE}"
proof -
  let ?P = sample_platform
  let ?st0 = "start Map.empty"
  let ?st1 = "handle ?P (SamplerTick 1700000000000 Throws (Some page_a)) ?st0"
  have loaded: "handle ?P PageLoaded ?st0 = ?st0" by (simp add: start_def)
  have absent: "handle ?P (SamplerTick 1000 Succeeds None) ?st0 = ?st0"
    by (simp add: on_tick_idle sampler_cycle_nothing)
  have "js ''-1952638566'' \<noteq> lastHash ?st0" by (simp add: js_def)
  from tick_throws [OF traverse_page_a hash_a this, of 1700000000000]
  have st1: "lastHash ?st1 = js ''-1952638566''" "io_trace ?st1 = [FileWrite path_a]"
    "fs ?st1 = Map.empty"
    by (simp_all add: snapshot_path_a)
  have "js (toString (simpleHash (json_stringify ?P tree_a))) = lastHash ?st1"
    using st1(1) hash_a by simp
  from tick_same [OF traverse_page_a this]
  have again: "handle ?P (SamplerTick 1700000002000 Succeeds (Some page_a)) ?st1 = ?st1" .
  have quiet: "run ?P [PageLoaded, SamplerTick 1000 Succeeds None] ?st0 = ?st0"
    by (simp add: run_def loaded absent del: handle.simps)
  have all: "run ?P [PageLoaded, SamplerTick 1000 Succeeds None,
         SamplerTick 1700000000000 Throws (Some page_a),
         SamplerTick 1700000002000 Succeeds (Some page_a)] ?st0 = ?st1"
    by (simp add: run_def loaded absent again del: handle.simps)
  have "dom (fs (fst (finish ?P Succeeds ?st1))) = {ASSETS_MAP_FILE}"
    by (simp add: finish_def trace_def console_write_def Let_def st1(3) del: handle.simps)
  then have "dom (fs (fst (session ?P Map.empty [PageLoaded, SamplerTick 1000 Succeeds None,
         SamplerTick 1700000000000 Throws (Some page_a),
         SamplerTick 1700000002000 Succeeds (Some page_a)] Succeeds))) = {ASSETS_MAP_FILE}"
    by (simp only: session_def all)
  with traverse_page_a quiet all st1 show ?thesis by simp
qed

section \<open>Pruning\<close>

lemma traverse_None_iff:
  "traverse el = None \<longleftrightarrow>
     tagName el \<in> set excluded_tags \<or> computedStyle el ''display'' = js ''none''"
  by (cases el) simp

lemma traverse_children_append:
  "traverse_children (xs @ ys) = traverse_children xs @ traverse_children ys"
proof (induction xs)
  case Nil
  show ?case by simp
next
  case (Cons x xs)
  then show ?case by (cases x) (simp_all split: option.splits)
qed

lemma styles_display: "map_of (getComputedStyles s) ''display'' = Some (s ''display'')"
  by (simp add: getComputedStyles_def style_properties_def)

lemma styles_opacity: "map_of (getComputedStyles s) ''opacity'' = Some (s ''opacity'')"
  by (simp add: getComputedStyles_def style_properties_def)

lemma traverse_nodes_kept:
  "traverse el = Some tree \<Longrightarrow>
     \<forall>n \<in> set (nodes_of tree).
       s_tagName n \<notin> set excluded_tags \<and> map_of (s_styles n) ''display'' \<noteq> Some (js ''none'')"
  "\<forall>t \<in> set (traverse_children nodes). \<forall>n \<in> set (nodes_of t).
       s_tagName n \<notin> set excluded_tags \<and> map_of (s_styles n) ''display'' \<noteq> Some (js ''none'')"
proof (induction el and nodes arbitrary: tree rule: traverse_traverse_children.induct)
  case (1 tag ident cls attrs style nodes)
  then show ?case by (auto simp: styles_display split: if_splits)
next
  case 2
  show ?case by simp
next
  case (3 child rest)
  then show ?case by (cases "traverse child") auto
next
  case (4 t rest)
  then show ?case by simp
next
  case (5 rest)
  then show ?case by simp
qed

lemma excluded_tags_set:
  "set excluded_tags
     = js ` {''SCRIPT'', ''STYLE'', ''NOSCRIPT'', ''IFRAME'', ''LINK'', ''META'', ''HEAD'', ''TITLE''}"
  by (simp add: excluded_tags_def)

lemma pruned_iff_traverse: "pruned el \<longleftrightarrow> traverse el = None"
  by (simp add: pruned_def traverse_None_iff)

lemma kept_elements_unfold:
  "kept_elements el = (if pruned el then [] else el # kept_below (childNodes el))"
  by (cases el) simp

lemma traverse_Some_fields:
  "traverse el = Some tree \<Longrightarrow>
     s_tagName tree = tagName el \<and> s_id tree = elem_id el \<and> s_className tree = className el
     \<and> s_textContent tree = textContent_of (childNodes el)
     \<and> s_attributes tree = attributes el
     \<and> s_styles tree = getComputedStyles (computedStyle el)
     \<and> s_children tree = traverse_children (childNodes el)"
  by (cases el) (auto split: if_splits)

lemma kept_below_append: "kept_below (xs @ ys) = kept_below xs @ kept_below ys"
proof (induction xs)
  case Nil
  show ?case by simp
next
  case (Cons x xs)
  then show ?case by (cases x) simp_all
qed

lemma kept_are_the_nodes:
  "map traverse (kept_elements el)
     = map Some (case traverse el of None \<Rightarrow> [] | Some tree \<Rightarrow> nodes_of tree)"
  "map traverse (kept_below nodes) = map Some (concat (map nodes_of (traverse_children nodes)))"
proof (induction el and nodes rule: traverse_traverse_children.induct)
  case (1 tag ident cls attrs style nodes)
  then show ?case by (simp add: pruned_def)
next
  case 2
  show ?case by simp
next
  case (3 child rest)
  then show ?case by (cases "traverse child") simp_all
next
  case (4 t rest)
  then show ?case by simp
next
  case (5 rest)
  then show ?case by simp
qed

lemma kept_not_pruned:
  "\<forall>k \<in> set (kept_elements el). \<not> pruned k"
  "\<forall>k \<in> set (kept_below nodes). \<not> pruned k"
proof (induction el and nodes rule: kept_elements_kept_below.induct)
  case (1 tag ident cls attrs style nodes)
  then show ?case by simp
next
  case 2
  show ?case by simp
next
  case (3 child rest)
  then show ?case by auto
next
  case (4 t rest)
  then show ?case by simp
next
  case (5 rest)
  then show ?case by simp
qed

lemma kept_closed:
  "p \<in> set (kept_elements el) \<Longrightarrow> set (kept_elements p) \<subseteq> set (kept_elements el)"
  "p \<in> set (kept_below nodes) \<Longrightarrow> set (kept_elements p) \<subseteq> set (kept_below nodes)"
proof (induction el and nodes rule: kept_elements_kept_below.induct)
  case (1 tag ident cls attrs style nodes)
  show ?case
  proof (cases "p = Element tag ident cls attrs style nodes")
    case True
    then show ?thesis by simp
  next
    case False
    with 1 show ?thesis by (auto split: if_splits)
  qed
next
  case 2
  then show ?case by simp
next
  case (3 child rest)
  then show ?case by auto
next
  case (4 t rest)
  then show ?case by simp
next
  case (5 rest)
  then show ?case by simp
qed

lemma kept_child:
  assumes parent: "parent \<in> set (kept_elements root)"
    and child: "childNodes parent = before @ ElementNode el # after"
    and unpruned: "\<not> pruned el"
  shows "el \<in> set (kept_elements root)"
proof -
  from parent kept_not_pruned(1) have "\<not> pruned parent" by blast
  then have "kept_elements parent = parent # kept_below (childNodes parent)"
    by (simp add: kept_elements_unfold)
  moreover have "el \<in> set (kept_elements el)" using unpruned by (simp add: kept_elements_unfold)
  ultimately have "el \<in> set (kept_elements parent)" by (simp add: child kept_below_append)
  with kept_closed(1) [OF parent] show ?thesis by blast
qed

lemma kept_has_node:
  assumes "traverse root = Some tree" "k \<in> set (kept_elements root)"
  shows "\<exists>node. traverse k = Some node \<and> node \<in> set (nodes_of tree)"
proof -
  from assms(2) have "traverse k \<in> set (map traverse (kept_elements root))" by simp
  then have "traverse k \<in> set (map Some (nodes_of tree))"
    by (simp only: kept_are_the_nodes(1) assms(1) option.case)
  then show ?thesis by auto
qed


text \<open>
  C5. The excluded tags are \<open>SCRIPT, STYLE, NOSCRIPT, IFRAME, LINK, META, HEAD, TITLE\<close>.
  \<open>traverse\<close> returns \<open>null\<close> exactly for an element with an excluded tag or computed
  \<open>display: none\<close>. Otherwise its node carries the element's tag and styles, and its
  children are the nodes of the element's child nodes, so that the nodes of the snapshot
  tree are, one for one and in order, the nodes of the elements the pruning rule keeps,
  at every depth; none has an excluded tag or \<open>display: none\<close>. A pruned child
  contributes nothing, whatever its own subtree: kept elements and children are the ones
  obtained without it. An element that is not pruned and has opacity \<open>0\<close> yields a node,
  with that opacity recorded, among its parent's children. Inside a tree: below any kept
  element, a pruned child is not kept and the parent's node has the children obtained
  without it; a child that is not pruned and has opacity \<open>0\<close> is kept, and its node is
  among the children of the parent's node and among the nodes of the whole snapshot.
\<close>

theorem traverse_pruning:
  "set excluded_tags
     = js ` {''SCRIPT'', ''STYLE'', ''NOSCRIPT'', ''IFRAME'', ''LINK'', ''META'', ''HEAD'', ''TITLE''}
   \<and> (traverse el = None \<longleftrightarrow>
         tagName el \<in> set excluded_tags \<or> computedStyle el ''display'' = js ''none'')
   \<and> (traverse el = Some tree \<longrightarrow>
         s_tagName tree = tagName el
         \<and> s_styles tree = getComputedStyles (computedStyle el)
         \<and> s_children tree = traverse_children (childNodes el)
         \<and> map traverse (kept_elements el) = map Some (nodes_of tree)
         \<and> (\<forall>n \<in> set (nodes_of tree).
              s_tagName n \<notin> set excluded_tags
              \<and> map_of (s_styles n) ''display'' \<noteq> Some (js ''none'')))
   \<and> (tagName child \<in> set excluded_tags \<or> computedStyle child ''display'' = js ''none'' \<longrightarrow>
         kept_elements child = []
         \<and> kept_below (before @ ElementNode child # after) = kept_below (before @ after)
         \<and> traverse_children (before @ ElementNode child # after)
           = traverse_children (before @ after))
   \<and> (tagName el \<notin> set excluded_tags \<and> computedStyle el ''display'' \<noteq> js ''none''
        \<and> computedStyle el ''opacity'' = js ''0'' \<longrightarrow>
         (\<exists>node. traverse el = Some node \<and> s_tagName node = tagName el
            \<and> map_of (s_styles node) ''opacity'' = Some (js ''0'')
            \<and> node \<in> set (traverse_children (before @ ElementNode el # after))
            \<and> traverse_children (before @ ElementNode el # after)
                 = traverse_children before @ node # traverse_children after))
   \<and> (traverse root = Some whole \<and> parent \<in> set (kept_elements root)
        \<and> childNodes parent = left @ ElementNode inner # right \<longrightarrow>
         (\<exists>parentNode. traverse parent = Some parentNode \<and> parentNode \<in> set (nodes_of whole)
            \<and> (pruned inner \<longrightarrow>
                  inner \<notin> set (kept_elements root)
                  \<and> s_children parentNode = traverse_children (left @ right))
            \<and> (\<not> pruned inner \<and> computedStyle inner ''opacity'' = js ''0'' \<longrightarrow>
                  inner \<in> set (kept_elements root)
                  \<and> (\<exists>node. traverse inner = Some node
                         \<and> map_of (s_styles node) ''opacity'' = Some (js ''0'')
                         \<and> s_children parentNode
                              = traverse_children left @ node # traverse_children right
                         \<and> node \<in> set (nodes_of whole)))))"
proof -
  have built: "s_tagName tree = tagName el
         \<and> s_styles tree = getComputedStyles (computedStyle el)
         \<and> s_children tree = traverse_children (childNodes el)
         \<and> map traverse (kept_elements el) = map Some (nodes_of tree)"
    if "traverse el = Some tree"
    using traverse_Some_fields [OF that] kept_are_the_nodes(1) [of el] that by simp
  have dropped: "kept_elements child = []
      \<and> kept_below (before @ ElementNode child # after) = kept_below (before @ after)
      \<and> traverse_children (before @ ElementNode child # after)
          = traverse_children (before @ after)"
    if "tagName child \<in> set excluded_tags \<or> computedStyle child ''display'' = js ''none''"
  proof -
    from that have "traverse child = None" by (simp add: traverse_None_iff)
    moreover from that have "kept_elements child = []"
      by (simp add: kept_elements_unfold pruned_def)
    ultimately show ?thesis by (simp add: traverse_children_append kept_below_append)
  qed
  have kept: "\<exists>node. traverse el = Some node \<and> s_tagName node = tagName el
            \<and> map_of (s_styles node) ''opacity'' = Some (js ''0'')
            \<and> node \<in> set (traverse_children (before @ ElementNode el # after))
            \<and> traverse_children (before @ ElementNode el # after)
                 = traverse_children before @ node # traverse_children after"
    if "tagName el \<notin> set excluded_tags" "computedStyle el ''display'' \<noteq> js ''none''"
      "computedStyle el ''opacity'' = js ''0''"
  proof (cases el)
    case (Element tag ident cls attrs style nodes)
    with that show ?thesis
      by (simp add: traverse_children_append styles_opacity)
  qed
  have deep: "\<exists>parentNode. traverse parent = Some parentNode \<and> parentNode \<in> set (nodes_of whole)
            \<and> (pruned inner \<longrightarrow>
                  inner \<notin> set (kept_elements root)
                  \<and> s_children parentNode = traverse_children (left @ right))
            \<and> (\<not> pruned inner \<and> computedStyle inner ''opacity'' = js ''0'' \<longrightarrow>
                  inner \<in> set (kept_elements root)
                  \<and> (\<exists>node. traverse inner = Some node
                         \<and> map_of (s_styles node) ''opacity'' = Some (js ''0'')
                         \<and> s_children parentNode
                              = traverse_children left @ node # traverse_children right
                         \<and> node \<in> set (nodes_of whole)))"
    if whole: "traverse root = Some whole" and parent: "parent \<in> set (kept_elements root)"
      and nodes: "childNodes parent = left @ ElementNode inner # right"
  proof -
    from kept_has_node [OF whole parent] obtain parentNode
      where pn: "traverse parent = Some parentNode" "parentNode \<in> set (nodes_of whole)"
      by blast
    from traverse_Some_fields [OF pn(1)] nodes
    have kids: "s_children parentNode = traverse_children (left @ ElementNode inner # right)"
      by simp
    have a: "inner \<notin> set (kept_elements root)
        \<and> s_children parentNode = traverse_children (left @ right)" if "pruned inner"
    proof -
      from that have "traverse inner = None" by (simp add: pruned_iff_traverse)
      with kids have "s_children parentNode = traverse_children (left @ right)"
        by (simp add: traverse_children_append)
      moreover from that kept_not_pruned(1) [of root] have "inner \<notin> set (kept_elements root)"
        by blast
      ultimately show ?thesis by simp
    qed
    have b: "inner \<in> set (kept_elements root)
        \<and> (\<exists>node. traverse inner = Some node
               \<and> map_of (s_styles node) ''opacity'' = Some (js ''0'')
               \<and> s_children parentNode = traverse_children left @ node # traverse_children right
               \<and> node \<in> set (nodes_of whole))"
      if unpruned: "\<not> pruned inner" and faded: "computedStyle inner ''opacity'' = js ''0''"
    proof -
      from kept_child [OF parent nodes unpruned] have in_root: "inner \<in> set (kept_elements root)" .
      from kept_has_node [OF whole in_root] obtain node
        where node: "traverse inner = Some node" "node \<in> set (nodes_of whole)"
        by blast
      from traverse_Some_fields [OF node(1)] faded
      have "map_of (s_styles node) ''opacity'' = Some (js ''0'')"
        by (simp add: styles_opacity)
      moreover from kids node(1)
      have "s_children parentNode = traverse_children left @ node # traverse_children right"
        by (simp add: traverse_children_append)
      ultimately show ?thesis using in_root node by blast
    qed
    from pn a b show ?thesis by blast
  qed
  from traverse_None_iff [of el] traverse_nodes_kept(1) [of el tree] excluded_tags_set
    built dropped kept deep
  show ?thesis by blast
qed


lemma flex_shown: "js ''flex'' \<noteq> js ''none''"
  by (simp add: js_def)

lemma traverse_wrapper: "traverse wrapper = Some wrapper_node"
  by (simp add: wrapper_def wrapper_node_def js_literals flex_shown textContent_of_def
      traverse_banner traverse_tracker traverse_popup)

lemma traverse_page_nested: "traverse page_nested = Some tree_nested"
  by (simp add: page_nested_def tree_nested_def js_literals textContent_of_def traverse_wrapper)

lemma pruned_samples: "pruned tracker" "pruned popup" "\<not> pruned banner" "\<not> pruned wrapper"
  "\<not> pruned page_nested"
  by (simp_all add: pruned_iff_traverse traverse_tracker traverse_popup traverse_banner
      traverse_wrapper traverse_page_nested)

lemma kept_page_nested: "kept_elements page_nested = [page_nested, wrapper, banner]"
proof -
  have "kept_below (childNodes banner) = []" by (simp add: banner_def)
  then have banner: "kept_elements banner = [banner]"
    by (subst kept_elements_unfold) (simp add: pruned_samples)
  have tracker: "kept_elements tracker = []" and popup: "kept_elements popup = []"
    by (subst kept_elements_unfold, simp add: pruned_samples)+
  have "kept_below (childNodes wrapper) = [banner]"
    by (simp add: wrapper_def banner tracker popup)
  then have wrapper: "kept_elements wrapper = [wrapper, banner]"
    by (subst kept_elements_unfold) (simp add: pruned_samples)
  have "kept_below (childNodes page_nested) = [wrapper, banner]"
    by (simp add: page_nested_def wrapper)
  then show ?thesis
    by (subst kept_elements_unfold) (simp add: pruned_samples)
qed

lemma nodes_of_tree_nested: "nodes_of tree_nested = [tree_nested, wrapper_node, banner_node]"
  by (simp add: tree_nested_def wrapper_node_def banner_node_def)

theorem traverse_pruning_witness:
  "tagName tracker \<in> set excluded_tags
   \<and> computedStyle popup ''display'' = js ''none''
   \<and> tagName banner \<notin> set excluded_tags
   \<and> computedStyle banner ''display'' \<noteq> js ''none''
   \<and> computedStyle banner ''opacity'' = js ''0''
   \<and> traverse tracker = None \<and> traverse popup = None
   \<and> traverse banner = Some banner_node
   \<and> traverse page_a = Some tree_a
   \<and> s_children tree_a = [banner_node]
   \<and> traverse_children [ElementNode tracker, OtherNode, ElementNode popup, ElementNode banner]
        = traverse_children [OtherNode, ElementNode popup, ElementNode banner]
   \<and> traverse_children [ElementNode tracker, OtherNode, ElementNode popup, ElementNode banner]
        = [banner_node]
   \<and> traverse page_nested = Some tree_nested
   \<and> wrapper \<in> set (kept_elements page_nested)
   \<and> childNodes wrapper = [ElementNode tracker, ElementNode popup, ElementNode banner]
   \<and> pruned tracker \<and> pruned popup \<and> \<not> pruned banner
   \<and> traverse wrapper = Some wrapper_node
   \<and> wrapper_node \<in> set (nodes_of tree_nested)
   \<and> s_children wrapper_node = [banner_node]
   \<and> s_children wrapper_node = traverse_children [ElementNode popup, ElementNode banner]
   \<and> banner \<in> set (kept_elements page_nested)
   \<and> banner_node \<in> set (nodes_of tree_nested)
   \<and> tracker \<notin> set (kept_elements page_nested)
   \<and> popup \<notin> set (kept_elements page_nested)
   \<and> map traverse (kept_elements page_nested) = map Some (nodes_of tree_nested)
   \<and> nodes_of tree_nested = [tree_nested, wrapper_node, banner_node]"
proof -
  have facts: "tagName tracker \<in> set excluded_tags"
    "computedStyle popup ''display'' = js ''none''"
    "tagName banner \<notin> set excluded_tags"
    "computedStyle banner ''display'' \<noteq> js ''none''"
    "computedStyle banner ''opacity'' = js ''0''"
    by (simp_all add: tracker_def popup_def banner_def js_literals)
  note script = traverse_pruning [where el = tracker and child = tracker and before = "[]"
      and after = "[OtherNode, ElementNode popup, ElementNode banner]"]
  note hidden = traverse_pruning [where el = popup and child = popup and before = "[OtherNode]"
      and after = "[ElementNode banner]"]
  note faded = traverse_pruning [where el = banner and child = popup
      and before = "[ElementNode tracker, OtherNode, ElementNode popup]" and after = "[]"]
  note whole = traverse_pruning [where el = page_nested and tree = tree_nested]
  note deep_script = traverse_pruning [where root = page_nested and whole = tree_nested
      and parent = wrapper and left = "[]" and inner = tracker
      and right = "[ElementNode popup, ElementNode banner]"]
  note deep_hidden = traverse_pruning [where root = page_nested and whole = tree_nested
      and parent = wrapper and left = "[ElementNode tracker]" and inner = popup
      and right = "[ElementNode banner]"]
  note deep_faded = traverse_pruning [where root = page_nested and whole = tree_nested
      and parent = wrapper and left = "[ElementNode tracker, ElementNode popup]"
      and inner = banner and right = "[]"]
  from script facts(1) have a: "traverse tracker = None"
    "traverse_children [ElementNode tracker, OtherNode, ElementNode popup, ElementNode banner]
        = traverse_children [OtherNode, ElementNode popup, ElementNode banner]"
    by simp_all
  from hidden facts(2) have b: "traverse popup = None" by simp
  from faded facts(3,4,5) traverse_banner a b
  have c: "traverse_children [ElementNode tracker, OtherNode, ElementNode popup, ElementNode banner]
        = [banner_node]"
    by simp
  have d: "s_children tree_a = [banner_node]" by (simp add: tree_a_def)
  have in_root: "wrapper \<in> set (kept_elements page_nested)"
    by (simp add: kept_page_nested)
  have nodes: "childNodes wrapper = [ElementNode tracker, ElementNode popup, ElementNode banner]"
    by (simp add: wrapper_def)
  from whole traverse_page_nested
  have e: "map traverse (kept_elements page_nested) = map Some (nodes_of tree_nested)"
    by simp
  from deep_script traverse_page_nested in_root nodes pruned_samples(1) traverse_wrapper
  have f: "wrapper_node \<in> set (nodes_of tree_nested)"
    "tracker \<notin> set (kept_elements page_nested)"
    "s_children wrapper_node = traverse_children [ElementNode popup, ElementNode banner]"
    by simp_all
  from deep_hidden traverse_page_nested in_root nodes pruned_samples(2) traverse_wrapper
  have g: "popup \<notin> set (kept_elements page_nested)"
    by simp
  from deep_faded traverse_page_nested in_root nodes pruned_samples(3) facts(5) traverse_wrapper
    traverse_banner a b
  have h: "banner \<in> set (kept_elements page_nested)"
    "s_children wrapper_node = [banner_node]"
    "banner_node \<in> set (nodes_of tree_nested)"
    by simp_all
  from facts a b c d traverse_banner traverse_page_a traverse_page_nested in_root nodes
    pruned_samples traverse_wrapper e f g h nodes_of_tree_nested
  show ?thesis by simp
qed

section \<open>Event logging\<close>

lemma on_tick_logs [simp]:
  "httpLogStream (on_tick P now w d st) = httpLogStream st"
  "wsLogStream (on_tick P now w d st) = wsLogStream st"
  by (simp_all add: on_tick_def split: prod.splits option.splits)

lemma handle_http_log:
  "httpLogStream (handle P ev st)
     = httpLogStream st @ (case http_record ev of None \<Rightarrow> [] | Some e \<Rightarrow> [e])"
  by (cases ev)
     (simp_all add: on_request_def on_response_def on_websocket_def on_framesent_def
        on_framereceived_def console_write_def logToStream_def response_entry_def Let_def)

lemma handle_ws_log:
  "wsLogStream (handle P ev st)
     = wsLogStream st @ (case ws_record ev of None \<Rightarrow> [] | Some e \<Rightarrow> [e])"
  by (cases ev)
     (simp_all add: on_request_def on_response_def on_websocket_def on_framesent_def
        on_framereceived_def console_write_def logToStream_def Let_def)

lemma run_http_log:
  "httpLogStream (run P es st) = httpLogStream st @ List.map_filter http_record es"
  unfolding run_def
  by (induction es arbitrary: st)
     (simp_all add: handle_http_log List.map_filter_simps split: option.splits)

lemma run_ws_log:
  "wsLogStream (run P es st) = wsLogStream st @ List.map_filter ws_record es"
  unfolding run_def
  by (induction es arbitrary: st)
     (simp_all add: handle_ws_log List.map_filter_simps split: option.splits)

lemma http_record_timestamps:
  "map entry_timestamp (List.map_filter http_record es) = List.map_filter http_clock es"
proof (induction es)
  case Nil
  show ?case by (simp add: List.map_filter_simps)
next
  case (Cons ev es)
  then show ?case
    by (cases ev) (simp_all add: List.map_filter_simps response_entry_def)
qed

text \<open>
  C7, as amended. Over any sequence of events, the HTTP stream receives exactly the
  records of the request and response events, one each, in order of arrival, and the
  WebSocket stream exactly the records of the frames sent and received; a handler appends
  one record to its own stream and none to the other. The timestamps in the HTTP log are
  the clock readings taken at the events, in the same order, so they are non-decreasing
  whenever the clock readings are.
\<close>

theorem event_logging:
  "httpLogStream (run P es st) = httpLogStream st @ List.map_filter http_record es
   \<and> wsLogStream (run P es st) = wsLogStream st @ List.map_filter ws_record es
   \<and> (\<forall>e. http_record ev = Some e \<longrightarrow>
         httpLogStream (handle P ev st) = httpLogStream st @ [e]
         \<and> wsLogStream (handle P ev st) = wsLogStream st)
   \<and> (\<forall>e. ws_record ev = Some e \<longrightarrow>
         wsLogStream (handle P ev st) = wsLogStream st @ [e]
         \<and> httpLogStream (handle P ev st) = httpLogStream st)
   \<and> map entry_timestamp (httpLogStream (run P es (start files))) = List.map_filter http_clock es
   \<and> (sorted (List.map_filter http_clock es) \<longrightarrow>
         sorted (map entry_timestamp (httpLogStream (run P es (start files)))))"
proof -
  have one_http: "httpLogStream (handle P ev st) = httpLogStream st @ [e]
      \<and> wsLogStream (handle P ev st) = wsLogStream st" if "http_record ev = Some e" for e
  proof -
    from that have "ws_record ev = None" by (cases ev) simp_all
    with that show ?thesis by (simp add: handle_http_log handle_ws_log)
  qed
  have one_ws: "wsLogStream (handle P ev st) = wsLogStream st @ [e]
      \<and> httpLogStream (handle P ev st) = httpLogStream st" if "ws_record ev = Some e" for e
  proof -
    from that have "http_record ev = None" by (cases ev) simp_all
    with that show ?thesis by (simp add: handle_http_log handle_ws_log)
  qed
  have times: "map entry_timestamp (httpLogStream (run P es (start files)))
      = List.map_filter http_clock es"
    by (simp add: run_http_log http_record_timestamps)
  from one_http one_ws times show ?thesis
    by (simp add: run_http_log run_ws_log)
qed

lemma entry_timestamp_response [simp]: "entry_timestamp (response_entry now r) = now"
  by (simp add: response_entry_def)

theorem event_logging_witness:
  "sorted (List.map_filter http_clock logged_events)
   \<and> map entry_timestamp (httpLogStream (run sample_platform logged_events (start Map.empty)))
       = [1000, 1200, 1700]
   \<and> httpLogStream (run sample_platform logged_events (start Map.empty))
       = [HTTP_REQUEST 1000 ''GET'' ''https://skazka.mobi/img/hero.png''
            [(''accept'', ''image/*'')] None,
          response_entry 1200 hero_png, response_entry 1700 missing_png]
   \<and> wsLogStream (run sample_platform logged_events (start Map.empty))
       = [WS_SENT 1500 ''wss://skazka.mobi/ws'' (TextPayload (js ''ping'')),
          WS_RECEIVED 1600 ''wss://skazka.mobi/ws'' (TextPayload (js ''pong''))]
   \<and> http_record (ResponseEvent 1200 Succeeds hero_png) = Some (response_entry 1200 hero_png)
   \<and> httpLogStream (handle sample_platform (ResponseEvent 1200 Succeeds hero_png)
         (start Map.empty)) = [response_entry 1200 hero_png]
   \<and> ws_record ping_frame = Some (WS_SENT 1500 ''wss://skazka.mobi/ws'' (TextPayload (js ''ping'')))
   \<and> wsLogStream (handle sample_platform ping_frame (start Map.empty))
       = [WS_SENT 1500 ''wss://skazka.mobi/ws'' (TextPayload (js ''ping''))]"
proof -
  have clocks: "List.map_filter http_clock logged_events = [1000, 1200, 1700]"
    by (simp add: logged_events_def ping_frame_def pong_frame_def List.map_filter_simps)
  have http: "List.map_filter http_record logged_events
      = [HTTP_REQUEST 1000 ''GET'' ''https://skazka.mobi/img/hero.png''
            [(''accept'', ''image/*'')] None,
          response_entry 1200 hero_png, response_entry 1700 missing_png]"
    by (simp add: logged_events_def ping_frame_def pong_frame_def hero_request_def
        List.map_filter_simps)
  have ws: "List.map_filter ws_record logged_events
      = [WS_SENT 1500 ''wss://skazka.mobi/ws'' (TextPayload (js ''ping'')),
          WS_RECEIVED 1600 ''wss://skazka.mobi/ws'' (TextPayload (js ''pong''))]"
    by (simp add: logged_events_def ping_frame_def pong_frame_def List.map_filter_simps)
  have single: "http_record (ResponseEvent 1200 Succeeds hero_png)
      = Some (response_entry 1200 hero_png)"
    "ws_record ping_frame = Some (WS_SENT 1500 ''wss://skazka.mobi/ws'' (TextPayload (js ''ping'')))"
    by (simp_all add: ping_frame_def)
  note session = event_logging [where P = sample_platform and es = logged_events
      and st = "start Map.empty" and files = Map.empty
      and ev = "ResponseEvent 1200 Succeeds hero_png"]
  note frame = event_logging [where P = sample_platform and es = logged_events
      and st = "start Map.empty" and files = Map.empty and ev = ping_frame]
  from session clocks http ws single(1)
  have a: "map entry_timestamp (httpLogStream (run sample_platform logged_events (start Map.empty)))
       = [1000, 1200, 1700]"
    "httpLogStream (run sample_platform logged_events (start Map.empty))
       = [HTTP_REQUEST 1000 ''GET'' ''https://skazka.mobi/img/hero.png''
            [(''accept'', ''image/*'')] None,
          response_entry 1200 hero_png, response_entry 1700 missing_png]"
    "wsLogStream (run sample_platform logged_events (start Map.empty))
       = [WS_SENT 1500 ''wss://skazka.mobi/ws'' (TextPayload (js ''ping'')),
          WS_RECEIVED 1600 ''wss://skazka.mobi/ws'' (TextPayload (js ''pong''))]"
    "httpLogStream (handle sample_platform (ResponseEvent 1200 Succeeds hero_png)
         (start Map.empty)) = [response_entry 1200 hero_png]"
    by simp_all
  from frame single(2)
  have b: "wsLogStream (handle sample_platform ping_frame (start Map.empty))
       = [WS_SENT 1500 ''wss://skazka.mobi/ws'' (TextPayload (js ''ping''))]"
    by simp
  from clocks a b single show ?thesis by simp
qed

text \<open>
  C7 as stated fails for the timestamps: they are wall-clock readings, and when the clock
  is set back between two events the later record carries the smaller timestamp.
\<close>

theorem timestamps_follow_the_clock:
  "http_clock (RequestEvent 2000 hero_request) = Some 2000
   \<and> http_clock (ResponseEvent 1500 Succeeds hero_png) = Some 1500
   \<and> map entry_timestamp (httpLogStream (run sample_platform
        [RequestEvent 2000 hero_request, ResponseEvent 1500 Succeeds hero_png]
        (start Map.empty))) = [2000, 1500]
   \<and> \<not> sorted (map entry_timestamp (httpLogStream (run sample_platform
        [RequestEvent 2000 hero_request, ResponseEvent 1500 Succeeds hero_png]
        (start Map.empty))))"
proof -
  have "map entry_timestamp (httpLogStream (run sample_platform
        [RequestEvent 2000 hero_request, ResponseEvent 1500 Succeeds hero_png]
        (start Map.empty))) = [2000, 1500]"
    by (simp add: run_http_log List.map_filter_simps)
  then show ?thesis by simp
qed

section \<open>Error containment\<close>



end
